theory Spec2Isabelle
  imports Complex_Main
begin

section \<open>Values of the program\<close>

text \<open>
  The exceptions the modelled code can raise: \<open>IndexError\<close> (indexing an empty deque or
  list), \<open>KeyError\<close> (a key missing from a dict), \<open>ValueError\<close> (a negative \<open>maxlen\<close>,
  \<open>np.stack\<close> or \<open>np.concatenate\<close> on nothing or on arrays of different shapes, operands
  that do not broadcast, a trimming proportion that is too big) and \<open>AssertionError\<close>
  (the \<open>assert\<close> of \<open>_batch_rollout\<close>).
\<close>

datatype error = IndexError | KeyError | ValueError | AssertionError

text \<open>
  A Python or NumPy float is a real number, an infinity or \<open>nan\<close>. Addition and
  multiplication treat the infinities and \<open>nan\<close> as IEEE 754 does: \<open>nan\<close> is absorbing,
  \<open>inf * 0\<close> and \<open>inf - inf\<close> are \<open>nan\<close>. The rounding and the overflow of finite values
  and the sign of zero are not modelled.
\<close>

datatype pyfloat = Finite real | PosInf | NegInf | NaN

fun fadd :: "pyfloat \<Rightarrow> pyfloat \<Rightarrow> pyfloat" where
  "fadd (Finite a) (Finite b) = Finite (a + b)"
| "fadd (Finite a) PosInf = PosInf"
| "fadd (Finite a) NegInf = NegInf"
| "fadd PosInf (Finite b) = PosInf"
| "fadd NegInf (Finite b) = NegInf"
| "fadd PosInf PosInf = PosInf"
| "fadd NegInf NegInf = NegInf"
| "fadd PosInf NegInf = NaN"
| "fadd NegInf PosInf = NaN"
| "fadd NaN y = NaN"
| "fadd x NaN = NaN"

fun fmul :: "pyfloat \<Rightarrow> pyfloat \<Rightarrow> pyfloat" where
  "fmul (Finite a) (Finite b) = Finite (a * b)"
| "fmul (Finite a) PosInf = (if a = 0 then NaN else if 0 < a then PosInf else NegInf)"
| "fmul (Finite a) NegInf = (if a = 0 then NaN else if 0 < a then NegInf else PosInf)"
| "fmul PosInf (Finite b) = (if b = 0 then NaN else if 0 < b then PosInf else NegInf)"
| "fmul NegInf (Finite b) = (if b = 0 then NaN else if 0 < b then NegInf else PosInf)"
| "fmul PosInf PosInf = PosInf"
| "fmul NegInf NegInf = PosInf"
| "fmul PosInf NegInf = NegInf"
| "fmul NegInf PosInf = NegInf"
| "fmul NaN y = NaN"
| "fmul x NaN = NaN"

text \<open>The numerals, \<open>+\<close> and \<open>*\<close> on floats.\<close>

instantiation pyfloat :: "{zero, times, numeral}"
begin

definition zero_pyfloat :: pyfloat where
  "zero_pyfloat = Finite 0"

definition one_pyfloat :: pyfloat where
  "one_pyfloat = Finite 1"

definition plus_pyfloat :: "pyfloat \<Rightarrow> pyfloat \<Rightarrow> pyfloat" where
  "plus_pyfloat = fadd"

definition times_pyfloat :: "pyfloat \<Rightarrow> pyfloat \<Rightarrow> pyfloat" where
  "times_pyfloat = fmul"

instance
proof
  fix a b c :: pyfloat
  show "a + b + c = a + (b + c)"
    unfolding plus_pyfloat_def by (cases a; cases b; cases c) simp_all
qed

end

definition float_of_int :: "int \<Rightarrow> pyfloat" where
  "float_of_int k = Finite (of_int k)"

definition is_finite :: "pyfloat \<Rightarrow> bool" where
  "is_finite x = (case x of Finite a \<Rightarrow> True | _ \<Rightarrow> False)"

text \<open>A NumPy array is its shape and its elements in row-major order.\<close>

datatype ndarray = NDArray (shape: "nat list") (data: "pyfloat list")

definition zeros_like :: "ndarray \<Rightarrow> ndarray" where
  "zeros_like a = NDArray (shape a) (map (\<lambda>_. 0) (data a))"

definition scalar :: "pyfloat \<Rightarrow> ndarray" where
  "scalar x = NDArray [] [x]"

text \<open>
  \<open>np.stack(arrays, axis=0)\<close>: raises ValueError on an empty sequence and when the
  arrays do not all have the same shape; otherwise the result has one more leading axis.
\<close>

definition np_stack :: "ndarray list \<Rightarrow> error + ndarray" where
  "np_stack arrs =
     (case arrs of
        [] \<Rightarrow> Inl ValueError
      | a # rest \<Rightarrow>
          if list_all (\<lambda>b. shape b = shape a) rest
          then Inr (NDArray (length arrs # shape a) (concat (map data arrs)))
          else Inl ValueError)"

text \<open>
  \<open>collections.deque(maxlen=m)\<close>: \<open>append\<close> adds on the right and, when the deque is
  then longer than \<open>maxlen\<close>, drops one element on the left; \<open>d[-1] = x\<close> raises
  IndexError on an empty deque.
\<close>

record 'a deque =
  maxlen :: nat
  items :: "'a list"

definition deque_new :: "nat \<Rightarrow> 'a deque" where
  "deque_new m = \<lparr>maxlen = m, items = []\<rparr>"

definition deque_append :: "'a deque \<Rightarrow> 'a \<Rightarrow> 'a deque" where
  "deque_append d x =
     (let ys = items d @ [x]
      in d\<lparr>items := (if maxlen d < length ys then tl ys else ys)\<rparr>)"

definition deque_set_last :: "'a deque \<Rightarrow> 'a \<Rightarrow> error + 'a deque" where
  "deque_set_last d x =
     (if items d = [] then Inl IndexError
      else Inr (d\<lparr>items := (items d)[length (items d) - 1 := x]\<rparr>))"

section \<open>SequenceEnvironmentWrapper\<close>

text \<open>
  The wrapped environment is a state of type \<open>'e\<close> with the two operations of the gym
  interface; \<open>process_jpeg\<close> is the JPEG round trip of \<open>_process_jpeg\<close> (TensorFlow code,
  taken as a function on arrays) and \<open>max_episode_steps\<close> is \<open>env.spec.max_episode_steps\<close>.
\<close>

record ('e, 'i) gym =
  env_reset :: "'e \<Rightarrow> int option \<Rightarrow> ndarray \<times> 'e"
  env_step :: "'e \<Rightarrow> int \<Rightarrow> (ndarray \<times> pyfloat \<times> bool \<times> 'i) \<times> 'e"
  process_jpeg :: "ndarray \<Rightarrow> ndarray"
  max_episode_steps :: int

record ('e, 'i) wrapper =
  env :: 'e
  num_stack_frames :: int
  jpeg_obs :: bool
  obs_stack :: "ndarray deque"
  act_stack :: "int deque"
  rew_stack :: "pyfloat deque"
  done_stack :: "int deque"
  info_stack :: "'i option deque"

text \<open>\<open>__init__\<close>: \<open>deque([], maxlen=n)\<close> raises ValueError for a negative \<open>n\<close>.\<close>

definition init :: "'e \<Rightarrow> int \<Rightarrow> bool \<Rightarrow> error + ('e, 'i) wrapper" where
  "init e n jpeg =
     (if n < 0 then Inl ValueError
      else Inr \<lparr>env = e, num_stack_frames = n, jpeg_obs = jpeg,
                obs_stack = deque_new (nat n), act_stack = deque_new (nat n),
                rew_stack = deque_new (nat n), done_stack = deque_new (nat n),
                info_stack = deque_new (nat n)\<rparr>)"

text \<open>One iteration of the loop of \<open>pad_current_episode\<close>, and the loop.\<close>

definition pad_once :: "ndarray \<Rightarrow> ('e, 'i) wrapper \<Rightarrow> ('e, 'i) wrapper" where
  "pad_once obs w =
     w\<lparr>obs_stack := deque_append (obs_stack w) (zeros_like obs),
       act_stack := deque_append (act_stack w) 0,
       rew_stack := deque_append (rew_stack w) 0,
       done_stack := deque_append (done_stack w) 1,
       info_stack := deque_append (info_stack w) None\<rparr>"

fun pad_loop :: "nat \<Rightarrow> ndarray \<Rightarrow> ('e, 'i) wrapper \<Rightarrow> ('e, 'i) wrapper" where
  "pad_loop 0 obs w = w"
| "pad_loop (Suc k) obs w = pad_loop k obs (pad_once obs w)"

definition pad_current_episode ::
  "('e, 'i) wrapper \<Rightarrow> ndarray \<Rightarrow> int \<Rightarrow> ('e, 'i) wrapper" where
  "pad_current_episode w obs n = pad_loop (nat n) obs w"

text \<open>
  \<open>_get_obs\<close> builds the history dict, a dict with the three keys below in this order.
  The three \<open>np.stack\<close> calls run in the order written and the first failure is raised.
\<close>

type_synonym history = "(string \<times> ndarray) list"

definition get_obs :: "('e, 'i) wrapper \<Rightarrow> error + history" where
  "get_obs w =
     (case np_stack (items (obs_stack w)) of
        Inl e \<Rightarrow> Inl e
      | Inr os \<Rightarrow>
          (case np_stack (map (\<lambda>a. scalar (float_of_int a)) (items (act_stack w))) of
             Inl e \<Rightarrow> Inl e
           | Inr as \<Rightarrow>
               (case np_stack (map scalar (items (rew_stack w))) of
                  Inl e \<Rightarrow> Inl e
                | Inr rs \<Rightarrow>
                    Inr [(''observations'', os), (''actions'', as), (''rewards'', rs)])))"

text \<open>
  \<open>reset\<close> and \<open>step\<close> return what the method returns, or the exception it raises,
  together with the wrapper as the call leaves it.
\<close>

definition reset ::
  "('e, 'i) gym \<Rightarrow> ('e, 'i) wrapper \<Rightarrow> int option \<Rightarrow> (error + history) \<times> ('e, 'i) wrapper" where
  "reset G w seed =
     (let (obs0, e') = env_reset G (env w) seed;
          obs = (if jpeg_obs w then process_jpeg G obs0 else obs0);
          w1 = pad_current_episode (w\<lparr>env := e'\<rparr>) obs (num_stack_frames w - 1);
          w2 = w1\<lparr>obs_stack := deque_append (obs_stack w1) obs,
                  act_stack := deque_append (act_stack w1) 0,
                  rew_stack := deque_append (rew_stack w1) 0,
                  done_stack := deque_append (done_stack w1) 0,
                  info_stack := deque_append (info_stack w1) None\<rparr>
      in (get_obs w2, w2))"

definition step ::
  "('e, 'i) gym \<Rightarrow> ('e, 'i) wrapper \<Rightarrow> int \<Rightarrow>
     (error + history \<times> pyfloat \<times> bool \<times> 'i) \<times> ('e, 'i) wrapper" where
  "step G w action =
     (case deque_set_last (act_stack w) action of
        Inl e \<Rightarrow> (Inl e, w)
      | Inr acts \<Rightarrow>
          (let w1 = w\<lparr>act_stack := acts\<rparr>;
               ((obs0, rew, done, info), e') = env_step G (env w1) action;
               w2 = w1\<lparr>env := e'\<rparr>;
               obs = (if jpeg_obs w2 then process_jpeg G obs0 else obs0)
           in (case deque_set_last (rew_stack w2) rew of
                 Inl e \<Rightarrow> (Inl e, w2)
               | Inr rews \<Rightarrow>
                   (let w3 = w2\<lparr>rew_stack := deque_append rews 0,
                                obs_stack := deque_append (obs_stack w2) obs,
                                act_stack := deque_append (act_stack w2) 0,
                                info_stack := deque_append (info_stack w2) (Some info)\<rparr>
                    in (case get_obs w3 of
                          Inl e \<Rightarrow> (Inl e, w3)
                        | Inr h \<Rightarrow> (Inr (h, rew, done, info), w3))))))"

text \<open>
  A client's calls on one wrapper. A call that raises leaves the wrapper as it was at
  the raise, and the client may go on calling.
\<close>

datatype wrapper_op =
    Reset "int option"
  | Step int
  | Pad ndarray int
  | GetObs

fun apply_op :: "('e, 'i) gym \<Rightarrow> ('e, 'i) wrapper \<Rightarrow> wrapper_op \<Rightarrow> ('e, 'i) wrapper" where
  "apply_op G w (Reset seed) = snd (reset G w seed)"
| "apply_op G w (Step a) = snd (step G w a)"
| "apply_op G w (Pad obs n) = pad_current_episode w obs n"
| "apply_op G w GetObs = w"

definition run_ops :: "('e, 'i) gym \<Rightarrow> ('e, 'i) wrapper \<Rightarrow> wrapper_op list \<Rightarrow> ('e, 'i) wrapper" where
  "run_ops G w ops = foldl (apply_op G) w ops"

text \<open>\<open>xs[i]\<close> in Python: an index below zero is taken from the end of the sequence.\<close>

definition py_index :: "'a list \<Rightarrow> int \<Rightarrow> error + 'a" where
  "py_index xs i =
     (if 0 \<le> i \<and> i < int (length xs) then Inr (xs ! nat i)
      else if i < 0 \<and> - int (length xs) \<le> i then Inr (xs ! nat (int (length xs) + i))
      else Inl IndexError)"

section \<open>The batched rollout\<close>

text \<open>
  \<open>{k: np.stack([obs[k] for obs in obs_list], axis=0) for k in obs_list[0]}\<close>: the keys of
  the first dict, each looked up in every dict of the list.
\<close>

fun lookup_all :: "string \<Rightarrow> history list \<Rightarrow> error + ndarray list" where
  "lookup_all k [] = Inr []"
| "lookup_all k (h # hs) =
     (case map_of h k of
        None \<Rightarrow> Inl KeyError
      | Some a \<Rightarrow> (case lookup_all k hs of Inl e \<Rightarrow> Inl e | Inr arrs \<Rightarrow> Inr (a # arrs)))"

fun stack_keys :: "string list \<Rightarrow> history list \<Rightarrow> error + history" where
  "stack_keys [] hs = Inr []"
| "stack_keys (k # ks) hs =
     (case lookup_all k hs of
        Inl e \<Rightarrow> Inl e
      | Inr arrs \<Rightarrow>
          (case np_stack arrs of
             Inl e \<Rightarrow> Inl e
           | Inr a \<Rightarrow>
               (case stack_keys ks hs of Inl e \<Rightarrow> Inl e | Inr rest \<Rightarrow> Inr ((k, a) # rest))))"

definition stack_obs :: "history list \<Rightarrow> error + history" where
  "stack_obs obs_list =
     (case obs_list of [] \<Rightarrow> Inl IndexError | h0 # _ \<Rightarrow> stack_keys (map fst h0) obs_list)"

text \<open>
  A binary NumPy operation on two one-dimensional arrays: elementwise when the lengths
  agree, an array of length one is broadcast, anything else raises ValueError. The
  in-place \<open>a += b\<close> keeps the shape of \<open>a\<close>, so only \<open>b\<close> may be broadcast.
\<close>

definition np_broadcast :: "('a \<Rightarrow> 'b \<Rightarrow> 'c) \<Rightarrow> 'a list \<Rightarrow> 'b list \<Rightarrow> error + 'c list" where
  "np_broadcast f xs ys =
     (if length xs = length ys then Inr (map2 f xs ys)
      else if length xs = 1 then Inr (map (f (hd xs)) ys)
      else if length ys = 1 then Inr (map (\<lambda>x. f x (hd ys)) xs)
      else Inl ValueError)"

definition np_iadd :: "pyfloat list \<Rightarrow> pyfloat list \<Rightarrow> error + pyfloat list" where
  "np_iadd a b =
     (if length b = length a then Inr (map2 (+) a b)
      else if length b = 1 then Inr (map (\<lambda>x. x + hd b) a)
      else Inl ValueError)"

text \<open>
  The policy and its random generator: \<open>generator\<close> is the fresh \<open>torch.Generator()\<close>,
  \<open>manual_seed\<close> reseeds it, and \<open>policy_fn\<close> maps the batched history and the generator
  to one action per environment and the generator it leaves behind.
\<close>

record 'r policy =
  generator :: 'r
  manual_seed :: "'r \<Rightarrow> int \<Rightarrow> 'r"
  policy_fn :: "history \<Rightarrow> 'r \<Rightarrow> int list \<times> 'r"

text \<open>
  \<open>[env.reset(seed=seeds[i]) for i, env in enumerate(envs)]\<close> and
  \<open>[env.step(act) for env, act in zip(envs, actions)]\<close>: the environments are called in
  order, and an exception leaves the environments called so far changed.
\<close>

fun reset_all ::
  "('e, 'i) gym \<Rightarrow> ('e, 'i) wrapper list \<Rightarrow> int list \<Rightarrow> nat \<Rightarrow>
     (error + history list) \<times> ('e, 'i) wrapper list" where
  "reset_all G [] seeds i = (Inr [], [])"
| "reset_all G (w # ws) seeds i =
     (if i < length seeds
      then (case reset G w (Some (seeds ! i)) of
              (Inl e, w') \<Rightarrow> (Inl e, w' # ws)
            | (Inr h, w') \<Rightarrow>
                (case reset_all G ws seeds (Suc i) of
                   (Inl e, ws') \<Rightarrow> (Inl e, w' # ws')
                 | (Inr hs, ws') \<Rightarrow> (Inr (h # hs), w' # ws')))
      else (Inl IndexError, w # ws))"

fun step_all ::
  "('e, 'i) gym \<Rightarrow> ('e, 'i) wrapper list \<Rightarrow> int list \<Rightarrow>
     (error + (history \<times> pyfloat \<times> bool \<times> 'i) list) \<times> ('e, 'i) wrapper list" where
  "step_all G [] acts = (Inr [], [])"
| "step_all G (w # ws) [] = (Inr [], w # ws)"
| "step_all G (w # ws) (a # acts) =
     (case step G w a of
        (Inl e, w') \<Rightarrow> (Inl e, w' # ws)
      | (Inr r, w') \<Rightarrow>
          (case step_all G ws acts of
             (Inl e, ws') \<Rightarrow> (Inl e, w' # ws')
           | (Inr rs, ws') \<Rightarrow> (Inr (r # rs), w' # ws')))"

text \<open>
  The variables of the tick loop of \<open>_batch_rollout\<close>; \<open>dones\<close> is the variable
  \<open>done\<close>, the int32 array of latched flags. \<open>tick\<close> is one pass through the loop body
  up to the update of \<open>rew_sum\<close>; the log line, which only prints, is left out.
\<close>

record 'r vars =
  rng :: 'r
  obs :: history
  rew_sum :: "pyfloat list"
  dones :: "int list"

definition tick ::
  "('e, 'i) gym \<Rightarrow> 'r policy \<Rightarrow> ('e, 'i) wrapper list \<Rightarrow> 'r vars \<Rightarrow>
     (error + 'r vars) \<times> ('e, 'i) wrapper list" where
  "tick G P envs v =
     (let done_prev = dones v;
          (actions, rng') = policy_fn P (obs v) (rng v)
      in case step_all G envs actions of
           (Inl e, envs') \<Rightarrow> (Inl e, envs')
         | (Inr step_results, envs') \<Rightarrow>
             (case stack_obs (map fst step_results) of
                Inl e \<Rightarrow> (Inl e, envs')
              | Inr obs' \<Rightarrow>
                  (let rew = map (\<lambda>result. fst (snd result)) step_results;
                       done_raw = map (\<lambda>result. fst (snd (snd result))) step_results
                   in case np_broadcast (\<lambda>d p. if d \<or> p \<noteq> 0 then 1 else 0) done_raw done_prev of
                        Inl e \<Rightarrow> (Inl e, envs')
                      | Inr done' \<Rightarrow>
                          (case np_broadcast (\<lambda>r d. r * float_of_int (1 - d)) rew done' of
                             Inl e \<Rightarrow> (Inl e, envs')
                           | Inr rew' \<Rightarrow>
                               (case np_iadd (rew_sum v) rew' of
                                  Inl e \<Rightarrow> (Inl e, envs')
                                | Inr rew_sum' \<Rightarrow>
                                    (Inr \<lparr>rng = rng', obs = obs', rew_sum = rew_sum',
                                          dones = done'\<rparr>, envs'))))))"

text \<open>
  \<open>for t in range(num_steps)\<close> with its \<open>break\<close> once every flag is set; the first
  argument counts the ticks that remain.
\<close>

fun tick_loop ::
  "nat \<Rightarrow> ('e, 'i) gym \<Rightarrow> 'r policy \<Rightarrow> ('e, 'i) wrapper list \<Rightarrow> 'r vars \<Rightarrow>
     (error + 'r vars) \<times> ('e, 'i) wrapper list" where
  "tick_loop 0 G P envs v = (Inr v, envs)"
| "tick_loop (Suc k) G P envs v =
     (case tick G P envs v of
        (Inl e, envs') \<Rightarrow> (Inl e, envs')
      | (Inr v', envs') \<Rightarrow>
          if list_all (\<lambda>d. d \<noteq> 0) (dones v') then (Inr v', envs')
          else tick_loop k G P envs' v')"

text \<open>The body of the loop over rounds, for round \<open>c\<close>: it returns the round's \<open>rew_sum\<close>.\<close>

definition rollout_round ::
  "('e, 'i) gym \<Rightarrow> 'r policy \<Rightarrow> ('e, 'i) wrapper list \<Rightarrow> 'r \<Rightarrow> int list \<Rightarrow> nat \<Rightarrow>
     (error + pyfloat list \<times> 'r) \<times> ('e, 'i) wrapper list" where
  "rollout_round G P envs rng0 seeds_list c =
     (let num_batch = length envs;
          num_steps = max_episode_steps G;
          seeds = take num_batch (drop (c * num_batch) seeds_list)
      in case seeds of
           [] \<Rightarrow> (Inl IndexError, envs)
         | seed0 # _ \<Rightarrow>
             (let rng1 = manual_seed P rng0 seed0
              in case reset_all G envs seeds 0 of
                   (Inl e, envs1) \<Rightarrow> (Inl e, envs1)
                 | (Inr obs_list, envs1) \<Rightarrow>
                     (case stack_obs obs_list of
                        Inl e \<Rightarrow> (Inl e, envs1)
                      | Inr obs0 \<Rightarrow>
                          (case tick_loop (nat num_steps) G P envs1
                                  \<lparr>rng = rng1, obs = obs0, rew_sum = replicate num_batch 0,
                                   dones = replicate num_batch 0\<rparr> of
                             (Inl e, envs2) \<Rightarrow> (Inl e, envs2)
                           | (Inr v, envs2) \<Rightarrow> (Inr (rew_sum v, rng v), envs2)))))"

text \<open>
  \<open>for c in range(num_episodes // num_batch)\<close>: the first argument counts the rounds that
  remain, \<open>c\<close> is the round and \<open>rew_sum_list\<close> the list built so far.
\<close>

fun rounds_loop ::
  "nat \<Rightarrow> nat \<Rightarrow> ('e, 'i) gym \<Rightarrow> 'r policy \<Rightarrow> ('e, 'i) wrapper list \<Rightarrow> 'r \<Rightarrow> int list \<Rightarrow>
     pyfloat list list \<Rightarrow> (error + pyfloat list list) \<times> ('e, 'i) wrapper list" where
  "rounds_loop 0 c G P envs rng0 seeds_list rew_sum_list = (Inr rew_sum_list, envs)"
| "rounds_loop (Suc k) c G P envs rng0 seeds_list rew_sum_list =
     (case rollout_round G P envs rng0 seeds_list c of
        (Inl e, envs') \<Rightarrow> (Inl e, envs')
      | (Inr (round_sum, rng1), envs') \<Rightarrow>
          rounds_loop k (Suc c) G P envs' rng1 seeds_list (rew_sum_list @ [round_sum]))"

text \<open>
  \<open>_batch_rollout\<close>. \<open>draws i\<close> is the \<open>i\<close>-th value that \<open>random.randint(0, 2**32 - 1)\<close>
  returns. \<open>envs[0]\<close> raises IndexError on an empty list, before the \<open>assert\<close>;
  \<open>np.concatenate\<close> raises ValueError when there was no round. The result comes with the
  environments as the call leaves them.
\<close>

definition batch_rollout ::
  "('e, 'i) gym \<Rightarrow> 'r policy \<Rightarrow> (nat \<Rightarrow> int) \<Rightarrow> ('e, 'i) wrapper list \<Rightarrow> int \<Rightarrow>
     (error + pyfloat list) \<times> ('e, 'i) wrapper list" where
  "batch_rollout G P draws envs num_episodes =
     (let num_batch = int (length envs)
      in case envs of
           [] \<Rightarrow> (Inl IndexError, envs)
         | env0 # _ \<Rightarrow>
             if num_episodes mod num_batch \<noteq> 0 then (Inl AssertionError, envs)
             else
               (let seeds_list = map draws [0..<nat num_episodes]
                in case rounds_loop (nat (num_episodes div num_batch)) 0 G P envs (generator P)
                        seeds_list [] of
                     (Inl e, envs') \<Rightarrow> (Inl e, envs')
                   | (Inr rew_sum_list, envs') \<Rightarrow>
                       if rew_sum_list = [] then (Inl ValueError, envs')
                       else (Inr (concat rew_sum_list), envs')))"

section \<open>Metrics\<close>

text \<open>
  The NumPy and SciPy reductions that \<open>print_metrics\<close> calls, on a one-dimensional array
  of finite values, taken as real numbers. \<open>None\<close> stands for the \<open>nan\<close> they return on
  an empty array.
  \<open>np.std\<close> is the population standard deviation (\<open>ddof = 0\<close>). \<open>trim_mean\<close> sorts,
  cuts \<open>int(proportiontocut * n)\<close> values from each end and takes the mean of the rest; it
  raises ValueError when the two cuts cross. The proportion is taken to be at least 0, as
  the 0.25 of \<open>print_metrics\<close> is, so that \<open>int\<close> rounds down.
\<close>

definition np_mean :: "real list \<Rightarrow> real option" where
  "np_mean xs = (if xs = [] then None else Some (sum_list xs / real (length xs)))"

definition np_std :: "real list \<Rightarrow> real option" where
  "np_std xs =
     (case np_mean xs of
        None \<Rightarrow> None
      | Some m \<Rightarrow>
          (case np_mean (map (\<lambda>x. (abs (x - m))\<^sup>2) xs) of
             None \<Rightarrow> None
           | Some var \<Rightarrow> Some (sqrt var)))"

definition np_median :: "real list \<Rightarrow> real option" where
  "np_median xs =
     (let s = sort xs; n = length xs
      in if n = 0 then None
         else if n mod 2 = 1 then Some (s ! (n div 2))
         else Some ((s ! (n div 2 - 1) + s ! (n div 2)) / 2))"

definition trim_mean :: "real list \<Rightarrow> real \<Rightarrow> error + real option" where
  "trim_mean xs proportiontocut =
     (if xs = [] then Inr None
      else let nobs = length xs;
               lowercut = nat (floor (proportiontocut * real nobs));
               uppercut = nobs - lowercut
           in if int nobs - int lowercut < int lowercut then Inl ValueError
              else Inr (np_mean (take (uppercut - lowercut) (drop lowercut (sort xs)))))"

text \<open>
  \<open>print_metrics\<close>: the four numbers it prints, in the order printed (mean, std, median,
  iqm), before they are formatted with two decimals.
\<close>

definition print_metrics :: "real list \<Rightarrow> error + real option list" where
  "print_metrics metric =
     (case trim_mean metric 0.25 of
        Inl e \<Rightarrow> Inl e
      | Inr iqm \<Rightarrow> Inr [np_mean metric, np_std metric, np_median metric, iqm])"

section \<open>Auxiliary definitions\<close>

text \<open>
  Appending a list of values to a deque, one by one.
\<close>

definition deque_extend :: "'a deque \<Rightarrow> 'a list \<Rightarrow> 'a deque" where
  "deque_extend d xs = foldl deque_append d xs"

text \<open>
  The invariant of a wrapper built with \<open>init\<close>: every deque has
  \<open>maxlen = num_stack_frames\<close> and holds at most that many entries. \<open>full_window\<close> is the
  invariant after the first reset: every deque is full.
\<close>

definition wf_wrapper :: "('e, 'i) wrapper \<Rightarrow> bool" where
  "wf_wrapper w \<longleftrightarrow>
     0 \<le> num_stack_frames w \<and>
     maxlen (obs_stack w) = nat (num_stack_frames w) \<and>
     maxlen (act_stack w) = nat (num_stack_frames w) \<and>
     maxlen (rew_stack w) = nat (num_stack_frames w) \<and>
     maxlen (done_stack w) = nat (num_stack_frames w) \<and>
     maxlen (info_stack w) = nat (num_stack_frames w) \<and>
     length (items (obs_stack w)) \<le> nat (num_stack_frames w) \<and>
     length (items (act_stack w)) \<le> nat (num_stack_frames w) \<and>
     length (items (rew_stack w)) \<le> nat (num_stack_frames w) \<and>
     length (items (done_stack w)) \<le> nat (num_stack_frames w) \<and>
     length (items (info_stack w)) \<le> nat (num_stack_frames w)"

definition full_window :: "('e, 'i) wrapper \<Rightarrow> bool" where
  "full_window w \<longleftrightarrow>
     0 \<le> num_stack_frames w \<and>
     maxlen (obs_stack w) = nat (num_stack_frames w) \<and>
     maxlen (act_stack w) = nat (num_stack_frames w) \<and>
     maxlen (rew_stack w) = nat (num_stack_frames w) \<and>
     maxlen (done_stack w) = nat (num_stack_frames w) \<and>
     maxlen (info_stack w) = nat (num_stack_frames w) \<and>
     length (items (obs_stack w)) = nat (num_stack_frames w) \<and>
     length (items (act_stack w)) = nat (num_stack_frames w) \<and>
     length (items (rew_stack w)) = nat (num_stack_frames w) \<and>
     length (items (done_stack w)) = nat (num_stack_frames w) \<and>
     length (items (info_stack w)) = nat (num_stack_frames w)"

text \<open>
  The observation that \<open>reset\<close> pushes, and what the environment's step returns in \<open>step\<close>.
\<close>

definition reset_obs :: "('e, 'i) gym \<Rightarrow> ('e, 'i) wrapper \<Rightarrow> int option \<Rightarrow> ndarray" where
  "reset_obs G w seed =
     (let obs0 = fst (env_reset G (env w) seed)
      in if jpeg_obs w then process_jpeg G obs0 else obs0)"

definition step_env :: "('e, 'i) gym \<Rightarrow> ('e, 'i) wrapper \<Rightarrow> int \<Rightarrow> ndarray \<times> pyfloat \<times> bool \<times> 'i" where
  "step_env G w a = fst (env_step G (env w) a)"

definition step_obs :: "('e, 'i) gym \<Rightarrow> ('e, 'i) wrapper \<Rightarrow> int \<Rightarrow> ndarray" where
  "step_obs G w a =
     (if jpeg_obs w then process_jpeg G (fst (step_env G w a)) else fst (step_env G w a))"

text \<open>
  A small environment for the concrete instances below. Its state is a step limit and a
  step counter; a step returns the reward \<open>counter + 5\<close> and is done once the limit is
  reached. The policy always answers \<open>[4, 4]\<close>.
\<close>

definition toy_gym :: "(nat \<times> nat, unit) gym" where
  "toy_gym =
     \<lparr>env_reset = (\<lambda>(limit, t) seed. (NDArray [2] [1, 2], (limit, 0))),
      env_step = (\<lambda>(limit, t) a.
         ((NDArray [2] [Finite (of_nat t + 3), float_of_int a], Finite (of_nat t + 5),
           limit \<le> Suc t, ()),
          (limit, Suc t))),
      process_jpeg = (\<lambda>a. NDArray (1 # shape a) (data a)),
      max_episode_steps = 3\<rparr>"

definition toy_wrapper :: "nat \<Rightarrow> int \<Rightarrow> (nat \<times> nat, unit) wrapper" where
  "toy_wrapper limit n =
     \<lparr>env = (limit, 0), num_stack_frames = n, jpeg_obs = False,
      obs_stack = deque_new (nat n), act_stack = deque_new (nat n),
      rew_stack = deque_new (nat n), done_stack = deque_new (nat n),
      info_stack = deque_new (nat n)\<rparr>"

text \<open>
  The arrays under actions and rewards of a history dict end with 0.
\<close>

definition placeholder_last :: "history \<Rightarrow> bool" where
  "placeholder_last h \<longleftrightarrow>
     (case map_of h ''actions'' of
        None \<Rightarrow> False
      | Some a \<Rightarrow> data a \<noteq> [] \<and> last (data a) = 0) \<and>
     (case map_of h ''rewards'' of
        None \<Rightarrow> False
      | Some r \<Rightarrow> data r \<noteq> [] \<and> last (data r) = 0)"

definition toy_window2 :: "(nat \<times> nat, unit) wrapper" where
  "toy_window2 =
     \<lparr>env = (2, 0), num_stack_frames = 2, jpeg_obs = False,
       obs_stack = \<lparr>maxlen = 2, items = [NDArray [2] [0, 0], NDArray [2] [1, 2]]\<rparr>,
       act_stack = \<lparr>maxlen = 2, items = [0, 0]\<rparr>,
       rew_stack = \<lparr>maxlen = 2, items = [0, 0]\<rparr>,
       done_stack = \<lparr>maxlen = 2, items = [1, 0]\<rparr>,
       info_stack = \<lparr>maxlen = 2, items = [None, None]\<rparr>\<rparr>"

definition toy_window1 :: "(nat \<times> nat, unit) wrapper" where
  "toy_window1 =
     \<lparr>env = (2, 0), num_stack_frames = 1, jpeg_obs = False,
       obs_stack = \<lparr>maxlen = 1, items = [NDArray [2] [1, 2]]\<rparr>,
       act_stack = \<lparr>maxlen = 1, items = [0]\<rparr>,
       rew_stack = \<lparr>maxlen = 1, items = [0]\<rparr>,
       done_stack = \<lparr>maxlen = 1, items = [0]\<rparr>,
       info_stack = \<lparr>maxlen = 1, items = [None]\<rparr>\<rparr>"

text \<open>
  The step result that NumPy pairs with slot \<open>i\<close> of an array of length \<open>n\<close>: the
  \<open>i\<close>-th one, or the only one when a single result is broadcast.
\<close>

definition slot_result ::
  "(history \<times> pyfloat \<times> bool \<times> 'i) list \<Rightarrow> nat \<Rightarrow> nat \<Rightarrow> history \<times> pyfloat \<times> bool \<times> 'i" where
  "slot_result rs n i = rs ! (if length rs = n then i else 0)"

text \<open>
  The list \<open>step_results\<close> of a tick.
\<close>

definition tick_results ::
  "('e, 'i) gym \<Rightarrow> 'r policy \<Rightarrow> ('e, 'i) wrapper list \<Rightarrow> 'r vars \<Rightarrow>
     (history \<times> pyfloat \<times> bool \<times> 'i) list" where
  "tick_results G P ws v =
     (case fst (step_all G ws (fst (policy_fn P (obs v) (rng v)))) of
        Inl e \<Rightarrow> []
      | Inr rs \<Rightarrow> rs)"


definition toy_policy :: "nat policy" where
  "toy_policy =
     \<lparr>generator = 0, manual_seed = (\<lambda>r s. nat \<bar>s\<bar>), policy_fn = (\<lambda>h r. ([4, 4], Suc r))\<rparr>"

definition toy_vars :: "nat vars" where
  "toy_vars = \<lparr>rng = 0, obs = [], rew_sum = [7, 0], dones = [1, 0]\<rparr>"

definition toy_window0 :: "(nat \<times> nat, unit) wrapper" where
  "toy_window0 = toy_window1\<lparr>env := (0, 0)\<rparr>"

definition toy_window1_stepped :: "(nat \<times> nat, unit) wrapper" where
  "toy_window1_stepped =
     \<lparr>env = (2, 1), num_stack_frames = 1, jpeg_obs = False,
       obs_stack = \<lparr>maxlen = 1, items = [NDArray [2] [3, 4]]\<rparr>,
       act_stack = \<lparr>maxlen = 1, items = [0]\<rparr>,
       rew_stack = \<lparr>maxlen = 1, items = [0]\<rparr>,
       done_stack = \<lparr>maxlen = 1, items = [0]\<rparr>,
       info_stack = \<lparr>maxlen = 1, items = [Some ()]\<rparr>\<rparr>"

definition toy_vars1 :: "nat vars" where
  "toy_vars1 =
     \<lparr>rng = 1,
      obs = [(''observations'', NDArray [2, 1, 2] [3, 4, 3, 4]),
             (''actions'', NDArray [2, 1] [0, 0]),
             (''rewards'', NDArray [2, 1] [0, 0])],
      rew_sum = [7, 5], dones = [1, 0]\<rparr>"


definition toy_vars_done :: "nat vars" where
  "toy_vars_done =
     \<lparr>rng = 1,
      obs = [(''observations'', NDArray [2, 1, 2] [3, 4, 3, 4]),
             (''actions'', NDArray [2, 1] [0, 0]),
             (''rewards'', NDArray [2, 1] [0, 0])],
      rew_sum = [7, 0], dones = [1, 1]\<rparr>"

text \<open>
  What a step of the small environment returns from a one-frame window, with done flag \<open>d\<close>.
\<close>

definition toy_result :: "bool \<Rightarrow> history \<times> pyfloat \<times> bool \<times> unit" where
  "toy_result d =
     ([(''observations'', NDArray [1, 2] [3, 4]),
       (''actions'', NDArray [1] [0]),
       (''rewards'', NDArray [1] [0])], 5, d, ())"

text \<open>
  The small environment again, reporting the reward \<open>inf\<close> at every step, and a policy for
  a single environment.
\<close>

definition toy_inf_gym :: "(nat \<times> nat, unit) gym" where
  "toy_inf_gym =
     \<lparr>env_reset = (\<lambda>(limit, t) seed. (NDArray [2] [1, 2], (limit, 0))),
      env_step = (\<lambda>(limit, t) a.
         ((NDArray [2] [Finite (of_nat t + 3), float_of_int a], PosInf, limit \<le> Suc t, ()),
          (limit, Suc t))),
      process_jpeg = (\<lambda>a. NDArray (1 # shape a) (data a)),
      max_episode_steps = 3\<rparr>"

definition toy_policy_one :: "nat policy" where
  "toy_policy_one =
     \<lparr>generator = 0, manual_seed = (\<lambda>r s. nat \<bar>s\<bar>), policy_fn = (\<lambda>h r. ([4], Suc r))\<rparr>"


definition toy_vars_fresh :: "nat vars" where
  "toy_vars_fresh = \<lparr>rng = 0, obs = [], rew_sum = [0], dones = [0]\<rparr>"

section \<open>Lemmas\<close>

lemma numeral_pyfloat: "(numeral k :: pyfloat) = Finite (numeral k)"
proof (induction k)
  case One
  then show ?case by (simp add: one_pyfloat_def)
next
  case (Bit0 k)
  have "(numeral (num.Bit0 k) :: pyfloat) = numeral k + numeral k"
    by (rule numeral_Bit0)
  also have "\<dots> = Finite (numeral k) + Finite (numeral k)"
    by (simp only: Bit0)
  also have "\<dots> = Finite (numeral k + numeral k)"
    by (simp add: plus_pyfloat_def)
  also have "(numeral k + numeral k :: real) = numeral (num.Bit0 k)"
    by (rule numeral_Bit0 [symmetric])
  finally show ?case .
next
  case (Bit1 k)
  have "(numeral (num.Bit1 k) :: pyfloat) = numeral k + numeral k + 1"
    by (rule numeral_Bit1)
  also have "\<dots> = Finite (numeral k) + Finite (numeral k) + Finite 1"
    by (simp only: Bit1 one_pyfloat_def)
  also have "\<dots> = Finite (numeral k + numeral k + 1)"
    by (simp add: plus_pyfloat_def)
  also have "(numeral k + numeral k + 1 :: real) = numeral (num.Bit1 k)"
    by (rule numeral_Bit1 [symmetric])
  finally show ?case .
qed

lemmas pyfloat_simps = zero_pyfloat_def one_pyfloat_def numeral_pyfloat plus_pyfloat_def
  times_pyfloat_def float_of_int_def is_finite_def

lemma fadd_zero: "x + float_of_int 0 = x"
  by (cases x) (simp_all add: pyfloat_simps)

lemma fmul_zero: "is_finite r \<Longrightarrow> r * float_of_int 0 = float_of_int 0"
  by (cases r) (simp_all add: pyfloat_simps)

lemma maxlen_deque_append [simp]: "maxlen (deque_append d x) = maxlen d"
  by (simp add: deque_append_def Let_def)

lemma items_deque_append:
  assumes "length (items d) \<le> maxlen d"
  shows "items (deque_append d x) = drop (Suc (length (items d)) - maxlen d) (items d @ [x])"
proof (cases "length (items d) < maxlen d")
  case True
  then show ?thesis by (simp add: deque_append_def Let_def)
next
  case False
  with assms have eq: "Suc (length (items d)) - maxlen d = Suc 0" by simp
  have "drop (Suc 0) (items d @ [x]) = tl (items d @ [x])"
    by (simp only: drop_Suc drop_0)
  with False eq show ?thesis
    by (simp only: deque_append_def Let_def) simp
qed

lemma length_deque_append:
  "length (items d) \<le> maxlen d \<Longrightarrow>
   length (items (deque_append d x)) = min (maxlen d) (Suc (length (items d)))"
  by (auto simp: deque_append_def Let_def)

lemma maxlen_deque_extend [simp]: "maxlen (deque_extend d xs) = maxlen d"
  unfolding deque_extend_def by (induction xs arbitrary: d) simp_all

lemma drop_drop_snoc:
  "k \<le> length ys \<Longrightarrow> drop j (drop k ys @ [x]) = drop (j + k) (ys @ [x])"
  by simp

lemma items_deque_extend:
  "length (items d) \<le> maxlen d \<Longrightarrow>
   items (deque_extend d xs) = drop (length (items d) + length xs - maxlen d) (items d @ xs)"
proof (induction xs rule: rev_induct)
  case Nil
  then show ?case by (simp add: deque_extend_def)
next
  case (snoc x xs)
  let ?e = "deque_extend d xs"
  let ?ys = "items d @ xs"
  let ?k = "length ?ys - maxlen d"
  have ih: "items ?e = drop ?k ?ys"
    using snoc by simp
  have len: "length (items ?e) \<le> maxlen ?e"
    by (simp add: ih)
  have "items (deque_extend d (xs @ [x])) = items (deque_append ?e x)"
    by (simp add: deque_extend_def)
  also have "\<dots> = drop (Suc (length (items ?e)) - maxlen d) (items ?e @ [x])"
    using items_deque_append [OF len] by simp
  also have "\<dots> = drop (Suc (length (items ?e)) - maxlen d) (drop ?k ?ys @ [x])"
    by (simp only: ih)
  also have "\<dots> = drop (Suc (length (items ?e)) - maxlen d + ?k) (?ys @ [x])"
    by (rule drop_drop_snoc) simp
  also have "Suc (length (items ?e)) - maxlen d + ?k = length (items d) + length (xs @ [x]) - maxlen d"
    by (simp add: ih)
  finally show ?case by simp
qed

lemma items_deque_extend_full:
  "length (items d) \<le> maxlen d \<Longrightarrow> length xs = maxlen d \<Longrightarrow> items (deque_extend d xs) = xs"
  by (simp add: items_deque_extend)

lemma init_wf: "init e n jpeg = Inr w \<Longrightarrow> wf_wrapper w \<and> num_stack_frames w = n"
  by (auto simp: init_def wf_wrapper_def deque_new_def split: if_splits)

lemma deque_extend_snoc: "deque_extend d (xs @ [x]) = deque_append (deque_extend d xs) x"
  by (simp add: deque_extend_def)

lemma deque_extend_Cons: "deque_extend d (x # xs) = deque_extend (deque_append d x) xs"
  by (simp add: deque_extend_def)

lemma deque_extend_Nil [simp]: "deque_extend d [] = d"
  by (simp add: deque_extend_def)

lemma pad_loop_fields:
  "obs_stack (pad_loop k ob w) = deque_extend (obs_stack w) (replicate k (zeros_like ob)) \<and>
   act_stack (pad_loop k ob w) = deque_extend (act_stack w) (replicate k 0) \<and>
   rew_stack (pad_loop k ob w) = deque_extend (rew_stack w) (replicate k 0) \<and>
   done_stack (pad_loop k ob w) = deque_extend (done_stack w) (replicate k 1) \<and>
   info_stack (pad_loop k ob w) = deque_extend (info_stack w) (replicate k None) \<and>
   env (pad_loop k ob w) = env w \<and>
   num_stack_frames (pad_loop k ob w) = num_stack_frames w \<and>
   jpeg_obs (pad_loop k ob w) = jpeg_obs w"
  by (induction k arbitrary: w) (simp_all add: pad_once_def deque_extend_Cons)

lemma reset_fields:
  "obs_stack (snd (reset G w seed)) =
     deque_extend (obs_stack w)
       (replicate (nat (num_stack_frames w - 1)) (zeros_like (reset_obs G w seed)) @ [reset_obs G w seed]) \<and>
   act_stack (snd (reset G w seed)) =
     deque_extend (act_stack w) (replicate (nat (num_stack_frames w - 1)) 0 @ [0]) \<and>
   rew_stack (snd (reset G w seed)) =
     deque_extend (rew_stack w) (replicate (nat (num_stack_frames w - 1)) 0 @ [0]) \<and>
   done_stack (snd (reset G w seed)) =
     deque_extend (done_stack w) (replicate (nat (num_stack_frames w - 1)) 1 @ [0]) \<and>
   info_stack (snd (reset G w seed)) =
     deque_extend (info_stack w) (replicate (nat (num_stack_frames w - 1)) None @ [None]) \<and>
   num_stack_frames (snd (reset G w seed)) = num_stack_frames w \<and>
   jpeg_obs (snd (reset G w seed)) = jpeg_obs w \<and>
   env (snd (reset G w seed)) = snd (env_reset G (env w) seed)"
  by (simp add: reset_def reset_obs_def Let_def pad_current_episode_def pad_loop_fields
      deque_extend_snoc split: prod.splits)

lemma reset_items:
  assumes "wf_wrapper w" "1 \<le> num_stack_frames w"
  shows "items (obs_stack (snd (reset G w seed))) =
           replicate (nat (num_stack_frames w - 1)) (zeros_like (reset_obs G w seed)) @ [reset_obs G w seed]"
    and "items (act_stack (snd (reset G w seed))) = replicate (nat (num_stack_frames w - 1)) 0 @ [0]"
    and "items (rew_stack (snd (reset G w seed))) = replicate (nat (num_stack_frames w - 1)) 0 @ [0]"
    and "items (done_stack (snd (reset G w seed))) = replicate (nat (num_stack_frames w - 1)) 1 @ [0]"
    and "items (info_stack (snd (reset G w seed))) = replicate (nat (num_stack_frames w - 1)) None @ [None]"
  using assms by (simp_all add: reset_fields wf_wrapper_def items_deque_extend_full)

lemma reset_full:
  assumes "wf_wrapper w" "1 \<le> num_stack_frames w"
  shows "full_window (snd (reset G w seed))"
  using assms reset_items [OF assms, of G seed]
  by (simp add: full_window_def) (simp add: reset_fields wf_wrapper_def)

lemma full_wf: "full_window w \<Longrightarrow> wf_wrapper w"
  by (simp add: full_window_def wf_wrapper_def)

lemma length_deque_append_full:
  "length (items d) = maxlen d \<Longrightarrow> length (items (deque_append d x)) = maxlen d"
  by (simp add: length_deque_append)

lemma length_deque_extend_full:
  "length (items d) = maxlen d \<Longrightarrow> length (items (deque_extend d xs)) = maxlen d"
  by (simp add: items_deque_extend)

lemma deque_set_last_Inr:
  "deque_set_last d x = Inr d' \<Longrightarrow>
     maxlen d' = maxlen d \<and> length (items d') = length (items d) \<and> items d \<noteq> [] \<and>
     items d' = (items d)[length (items d) - 1 := x]"
  by (auto simp: deque_set_last_def split: if_splits)

lemma pad_full: "full_window w \<Longrightarrow> full_window (pad_current_episode w ob n)"
  by (simp add: full_window_def pad_current_episode_def pad_loop_fields length_deque_extend_full)

lemma snd_case_sum: "snd (case x of Inl e \<Rightarrow> (f e, w) | Inr h \<Rightarrow> (g h, w)) = w"
  by (cases x) simp_all

lemma step_empty:
  "items (act_stack w) = [] \<Longrightarrow> step G w a = (Inl IndexError, w)"
  by (simp add: step_def deque_set_last_def)

lemma step_fields:
  assumes "items (act_stack w) \<noteq> []" "items (rew_stack w) \<noteq> []"
  shows "obs_stack (snd (step G w a)) = deque_append (obs_stack w) (step_obs G w a)"
    and "act_stack (snd (step G w a)) =
           deque_append ((act_stack w)\<lparr>items := (items (act_stack w))[length (items (act_stack w)) - 1 := a]\<rparr>) 0"
    and "rew_stack (snd (step G w a)) =
           deque_append ((rew_stack w)\<lparr>items := (items (rew_stack w))[length (items (rew_stack w)) - 1 := fst (snd (step_env G w a))]\<rparr>) 0"
    and "done_stack (snd (step G w a)) = done_stack w"
    and "info_stack (snd (step G w a)) = deque_append (info_stack w) (Some (snd (snd (snd (step_env G w a)))))"
    and "num_stack_frames (snd (step G w a)) = num_stack_frames w"
    and "jpeg_obs (snd (step G w a)) = jpeg_obs w"
    and "env (snd (step G w a)) = snd (env_step G (env w) a)"
  using assms
  by (simp_all add: step_def deque_set_last_def Let_def case_prod_beta snd_case_sum
      step_obs_def step_env_def)

lemma step_full: "full_window w \<Longrightarrow> full_window (snd (step G w a))"
proof (cases "items (act_stack w) = []")
  case True
  assume "full_window w"
  with True show ?thesis by (simp add: step_empty)
next
  case False
  assume f: "full_window w"
  with False have r: "items (rew_stack w) \<noteq> []"
    by (auto simp: full_window_def)
  show ?thesis
    using f unfolding full_window_def
    by (simp add: step_fields [OF False r] length_deque_append_full)
qed

lemma step_frames: "num_stack_frames (snd (step G w a)) = num_stack_frames w"
  by (simp add: step_def deque_set_last_def Let_def case_prod_beta snd_case_sum)

lemma apply_op_full:
  "full_window w \<Longrightarrow> 1 \<le> num_stack_frames w \<Longrightarrow> full_window (apply_op G w op)"
  by (cases op) (simp_all add: reset_full full_wf pad_full step_full)

lemma apply_op_frames: "num_stack_frames (apply_op G w op) = num_stack_frames w"
  by (cases op)
     (simp_all add: reset_fields pad_current_episode_def pad_loop_fields step_frames)

lemma run_ops_full:
  "full_window w \<Longrightarrow> 1 \<le> num_stack_frames w \<Longrightarrow>
     full_window (run_ops G w ops) \<and> num_stack_frames (run_ops G w ops) = num_stack_frames w"
  unfolding run_ops_def
proof (induction ops arbitrary: w)
  case Nil
  then show ?case by simp
next
  case (Cons op ops)
  then show ?case by (simp add: apply_op_full apply_op_frames)
qed

lemma after_reset_full:
  assumes "init e n jpeg = Inr w0" "1 \<le> n"
  shows "full_window (run_ops G w0 (Reset seed # ops)) \<and>
         num_stack_frames (run_ops G w0 (Reset seed # ops)) = n"
proof -
  have wf: "wf_wrapper w0" and n: "num_stack_frames w0 = n"
    using init_wf [OF assms(1)] by simp_all
  let ?w1 = "snd (reset G w0 seed)"
  have f1: "full_window ?w1" using wf n assms(2) by (simp add: reset_full)
  have n1: "num_stack_frames ?w1 = n" using n by (simp add: reset_fields)
  have "run_ops G w0 (Reset seed # ops) = run_ops G ?w1 ops"
    by (simp add: run_ops_def)
  then show ?thesis using run_ops_full [OF f1, of G ops] n1 assms(2) by simp
qed

lemma length_deque_extend_le:
  "length (items d) \<le> m \<Longrightarrow> maxlen d = m \<Longrightarrow> length (items (deque_extend d xs)) \<le> m"
  by (simp add: items_deque_extend)

lemma length_deque_append_le:
  "length (items d) \<le> m \<Longrightarrow> maxlen d = m \<Longrightarrow> length (items (deque_append d x)) \<le> m"
  by (simp add: length_deque_append)

lemma pad_wf: "wf_wrapper w \<Longrightarrow> wf_wrapper (pad_current_episode w ob n)"
  by (simp add: wf_wrapper_def pad_current_episode_def pad_loop_fields length_deque_extend_le)

lemma reset_wf: "wf_wrapper w \<Longrightarrow> wf_wrapper (snd (reset G w seed))"
  by (simp add: wf_wrapper_def reset_fields length_deque_extend_le)

lemma step_wf: "wf_wrapper w \<Longrightarrow> wf_wrapper (snd (step G w a))"
proof (cases "items (act_stack w) = [] \<or> items (rew_stack w) = []")
  case True
  assume "wf_wrapper w"
  with True show ?thesis
    by (auto simp: step_def deque_set_last_def Let_def case_prod_beta wf_wrapper_def)
next
  case False
  assume f: "wf_wrapper w"
  from False have a: "items (act_stack w) \<noteq> []" and r: "items (rew_stack w) \<noteq> []"
    by simp_all
  show ?thesis
    using f unfolding wf_wrapper_def
    by (simp add: step_fields [OF a r] length_deque_append_le)
qed

lemma apply_op_wf: "wf_wrapper w \<Longrightarrow> wf_wrapper (apply_op G w op)"
  by (cases op) (simp_all add: reset_wf pad_wf step_wf)

lemma run_ops_wf:
  "wf_wrapper w \<Longrightarrow>
     wf_wrapper (run_ops G w ops) \<and> num_stack_frames (run_ops G w ops) = num_stack_frames w"
  unfolding run_ops_def
  by (induction ops arbitrary: w) (simp_all add: apply_op_wf apply_op_frames)

lemma concat_scalars: "concat (map data (map scalar xs)) = xs"
  by (induction xs) (simp_all add: scalar_def)

lemma np_stack_scalars:
  "np_stack (map scalar xs) = (if xs = [] then Inl ValueError else Inr (NDArray [length xs] xs))"
proof (cases xs)
  case Nil
  then show ?thesis by (simp add: np_stack_def)
next
  case (Cons x rest)
  have "list_all (\<lambda>b. shape b = shape (scalar x)) (map scalar rest)"
    by (simp add: list_all_iff scalar_def)
  moreover have "concat (map data (map scalar (x # rest))) = x # rest"
    by (rule concat_scalars)
  ultimately show ?thesis using Cons
    by (simp add: np_stack_def scalar_def)
qed

lemma np_stack_int_scalars:
  "np_stack (map (\<lambda>a. scalar (float_of_int a)) xs) =
     (if xs = [] then Inl ValueError else Inr (NDArray [length xs] (map float_of_int xs)))"
  using np_stack_scalars [of "map float_of_int xs"] by (simp add: comp_def)

lemma np_stack_error: "np_stack arrs = Inl err \<Longrightarrow> err = ValueError"
  by (auto simp: np_stack_def split: list.splits if_splits)

lemma get_obs_error: "get_obs w = Inl err \<Longrightarrow> err = ValueError"
  by (auto simp: get_obs_def split: sum.splits dest: np_stack_error)

lemma get_obs_eq:
  assumes "items (obs_stack w) \<noteq> []" "items (act_stack w) \<noteq> []" "items (rew_stack w) \<noteq> []"
  shows "get_obs w =
     (if list_all (\<lambda>b. shape b = shape (hd (items (obs_stack w)))) (tl (items (obs_stack w)))
      then Inr [(''observations'',
                 NDArray (length (items (obs_stack w)) # shape (hd (items (obs_stack w))))
                   (concat (map data (items (obs_stack w))))),
                (''actions'', NDArray [length (items (act_stack w))] (map float_of_int (items (act_stack w)))),
                (''rewards'', NDArray [length (items (rew_stack w))] (items (rew_stack w)))]
      else Inl ValueError)"
proof -
  obtain a rest where o: "items (obs_stack w) = a # rest"
    using assms(1) by (cases "items (obs_stack w)") auto
  have os: "np_stack (items (obs_stack w)) =
      (if list_all (\<lambda>b. shape b = shape a) rest
       then Inr (NDArray (length (a # rest) # shape a) (concat (map data (a # rest))))
       else Inl ValueError)"
    by (simp add: o np_stack_def)
  show ?thesis
    using assms(2,3)
    by (simp add: get_obs_def np_stack_scalars np_stack_int_scalars os) (simp add: o)
qed

lemma get_obs_Inr:
  assumes "get_obs w = Inr h"
  shows "map_of h ''actions'' = Some (NDArray [length (items (act_stack w))] (map float_of_int (items (act_stack w))))"
    and "map_of h ''rewards'' = Some (NDArray [length (items (rew_stack w))] (items (rew_stack w)))"
    and "items (act_stack w) \<noteq> []" and "items (rew_stack w) \<noteq> []"
  using assms
  by (auto simp: get_obs_def np_stack_scalars np_stack_int_scalars split: sum.splits if_splits)

lemma last_deque_append:
  "items (deque_append d x) \<noteq> [] \<Longrightarrow> last (items (deque_append d x)) = x"
proof -
  assume ne: "items (deque_append d x) \<noteq> []"
  show ?thesis
  proof (cases "maxlen d < length (items d @ [x])")
    case False
    then show ?thesis by (simp add: deque_append_def Let_def)
  next
    case True
    then have eq: "items (deque_append d x) = tl (items d @ [x])"
      by (simp add: deque_append_def Let_def)
    with ne have "items d \<noteq> []" by auto
    then have "tl (items d @ [x]) = tl (items d) @ [x]" by simp
    with eq show ?thesis by simp
  qed
qed

lemma fst_reset: "fst (reset G w seed) = get_obs (snd (reset G w seed))"
  by (simp add: reset_def Let_def case_prod_beta)

lemma fst_step:
  assumes "items (act_stack w) \<noteq> []" "items (rew_stack w) \<noteq> []"
  shows "fst (step G w a) =
     (case get_obs (snd (step G w a)) of
        Inl err \<Rightarrow> Inl err
      | Inr h \<Rightarrow> Inr (h, snd (step_env G w a)))"
  using assms
  by (simp add: step_def deque_set_last_def Let_def case_prod_beta step_env_def split: sum.splits)

lemma step_Inr_nonempty:
  "fst (step G w a) = Inr res \<Longrightarrow> items (act_stack w) \<noteq> [] \<and> items (rew_stack w) \<noteq> []"
  by (auto simp: step_def deque_set_last_def Let_def case_prod_beta split: sum.splits if_splits)

lemma placeholder_lastI:
  assumes "get_obs w = Inr h"
    and "act_stack w = deque_append da 0" and "rew_stack w = deque_append dr 0"
  shows "placeholder_last h"
proof -
  note g = get_obs_Inr [OF assms(1)]
  have "last (items (act_stack w)) = 0" "last (items (rew_stack w)) = 0"
    using g(3,4) assms(2,3) by (simp_all add: last_deque_append)
  then show ?thesis
    using g by (simp add: placeholder_last_def last_map pyfloat_simps)
qed

lemmas toy_defs = pyfloat_simps toy_gym_def toy_wrapper_def reset_def step_def pad_current_episode_def pad_once_def
  deque_append_def deque_new_def deque_set_last_def get_obs_def np_stack_def scalar_def zeros_like_def Let_def

lemma toy_reset2:
  "reset toy_gym (toy_wrapper 2 2) None =
     (Inr [(''observations'', NDArray [2, 2] [0, 0, 1, 2]),
           (''actions'', NDArray [2] [0, 0]),
           (''rewards'', NDArray [2] [0, 0])],
      toy_window2)"
  by (simp add: toy_defs toy_window2_def)

lemma toy_step2:
  "step toy_gym toy_window2 4 =
     (Inr ([(''observations'', NDArray [2, 2] [1, 2, 3, 4]),
           (''actions'', NDArray [2] [4, 0]),
           (''rewards'', NDArray [2] [5, 0])], 5, False, ()),
      \<lparr>env = (2, 1), num_stack_frames = 2, jpeg_obs = False,
       obs_stack = \<lparr>maxlen = 2, items = [NDArray [2] [1, 2], NDArray [2] [3, 4]]\<rparr>,
       act_stack = \<lparr>maxlen = 2, items = [4, 0]\<rparr>,
       rew_stack = \<lparr>maxlen = 2, items = [5, 0]\<rparr>,
       done_stack = \<lparr>maxlen = 2, items = [1, 0]\<rparr>,
       info_stack = \<lparr>maxlen = 2, items = [None, Some ()]\<rparr>\<rparr>)"
  by (simp add: toy_defs toy_window2_def)

lemma toy_reset1:
  "reset toy_gym (toy_wrapper 2 1) None =
     (Inr [(''observations'', NDArray [1, 2] [1, 2]),
           (''actions'', NDArray [1] [0]),
           (''rewards'', NDArray [1] [0])],
      toy_window1)"
  by (simp add: toy_defs toy_window1_def)

lemma toy_step1:
  "step toy_gym toy_window1 4 =
     (Inr ([(''observations'', NDArray [1, 2] [3, 4]),
           (''actions'', NDArray [1] [0]),
           (''rewards'', NDArray [1] [0])], 5, False, ()),
      \<lparr>env = (2, 1), num_stack_frames = 1, jpeg_obs = False,
       obs_stack = \<lparr>maxlen = 1, items = [NDArray [2] [3, 4]]\<rparr>,
       act_stack = \<lparr>maxlen = 1, items = [0]\<rparr>,
       rew_stack = \<lparr>maxlen = 1, items = [0]\<rparr>,
       done_stack = \<lparr>maxlen = 1, items = [0]\<rparr>,
       info_stack = \<lparr>maxlen = 1, items = [Some ()]\<rparr>\<rparr>)"
  by (simp add: toy_defs toy_window1_def)

lemma toy_init: "init (2::nat, 0::nat) n False = (if n < 0 then Inl ValueError else Inr (toy_wrapper 2 n))"
  by (simp add: init_def toy_wrapper_def)

lemma step_done_stack: "done_stack (snd (step G w a)) = done_stack w"
  by (simp add: step_def deque_set_last_def Let_def case_prod_beta snd_case_sum)

lemma step_all_Inr:
  "step_all G ws acts = (Inr rs, ws') \<Longrightarrow>
     length rs = min (length ws) (length acts) \<and> length ws' = length ws \<and>
     (\<forall>i < length rs. fst (step G (ws ! i) (acts ! i)) = Inr (rs ! i))"
proof (induction G ws acts arbitrary: rs ws' rule: step_all.induct)
  case (1 G acts)
  then show ?case by simp
next
  case (2 G w ws)
  then show ?case by simp
next
  case (3 G w ws a acts)
  obtain res w1 where s: "step G w a = (res, w1)" by (cases "step G w a")
  with "3.prems" obtain r where r: "res = Inr r" by (cases res) auto
  obtain res2 ws2 where s2: "step_all G ws acts = (res2, ws2)" by (cases "step_all G ws acts")
  with "3.prems" s r obtain rs2 where r2: "res2 = Inr rs2" by (cases res2) auto
  from "3.prems" s r s2 r2 have eq: "rs = r # rs2" "ws' = w1 # ws2" by auto
  have ih: "length rs2 = min (length ws) (length acts) \<and> length ws2 = length ws \<and>
     (\<forall>i < length rs2. fst (step G (ws ! i) (acts ! i)) = Inr (rs2 ! i))"
    using "3.IH" [of "Inr r" w1 r rs2 ws2] s r s2 r2 by simp
  show ?case
  proof (intro conjI allI impI)
    show "length rs = min (length (w # ws)) (length (a # acts))" using ih eq by simp
    show "length ws' = length (w # ws)" using ih eq by simp
    fix i assume "i < length rs"
    then show "fst (step G ((w # ws) ! i) ((a # acts) ! i)) = Inr (rs ! i)"
      using ih eq s r by (cases i) auto
  qed
qed

lemma np_broadcast_Inr:
  assumes "np_broadcast f xs ys = Inr zs" "xs \<noteq> []" "length xs \<le> length ys"
  shows "length zs = length ys"
    and "i < length ys \<Longrightarrow> zs ! i = f (xs ! (if length xs = length ys then i else 0)) (ys ! i)"
proof -
  have ne: "length xs \<noteq> 0" using assms(2) by simp
  obtain x rest where xs: "xs = x # rest" using assms(2) by (cases xs) auto
  show "length zs = length ys"
    using assms(1,3) unfolding xs by (auto simp: np_broadcast_def split: if_splits)
  assume i: "i < length ys"
  show "zs ! i = f (xs ! (if length xs = length ys then i else 0)) (ys ! i)"
  proof (cases "length xs = length ys")
    case True
    with assms(1) have "zs = map2 f xs ys" by (simp add: np_broadcast_def)
    with True i show ?thesis by simp
  next
    case False
    have l1: "length xs = 1"
    proof (rule ccontr)
      assume n1: "length xs \<noteq> 1"
      with False assms(1) have "length ys = 1"
        by (simp add: np_broadcast_def split: if_splits)
      with assms(3) ne n1 show False by simp
    qed
    with False assms(1) have "zs = map (f (hd xs)) ys" by (simp add: np_broadcast_def)
    moreover have "hd xs = xs ! 0" using assms(2) by (simp add: hd_conv_nth)
    ultimately show ?thesis using False i by simp
  qed
qed

lemma np_iadd_same:
  "length b = length a \<Longrightarrow> np_iadd a b = Inr (map2 (+) a b)"
  by (simp add: np_iadd_def)

lemma stack_obs_Inr_nonempty: "stack_obs hs = Inr h \<Longrightarrow> hs \<noteq> []"
  by (auto simp: stack_obs_def)

lemma tick_Inr:
  assumes t: "tick G P ws v = (Inr v', ws')"
    and ld: "length (dones v) = length ws" and lr: "length (rew_sum v) = length ws"
  shows "step_all G ws (fst (policy_fn P (obs v) (rng v))) = (Inr (tick_results G P ws v), ws')"
    and "tick_results G P ws v \<noteq> []"
    and "length ws' = length ws"
    and "length (dones v') = length ws"
    and "length (rew_sum v') = length ws"
    and "i < length ws \<Longrightarrow>
           dones v' ! i =
             (if fst (snd (snd (slot_result (tick_results G P ws v) (length ws) i))) \<or> dones v ! i \<noteq> 0
              then 1 else 0)"
    and "i < length ws \<Longrightarrow>
           rew_sum v' ! i =
             rew_sum v ! i +
             fst (snd (slot_result (tick_results G P ws v) (length ws) i)) * float_of_int (1 - dones v' ! i)"
proof -
  let ?acts = "fst (policy_fn P (obs v) (rng v))"
  obtain res ws1 where sa: "step_all G ws ?acts = (res, ws1)" by (cases "step_all G ws ?acts")
  from t sa obtain rs where res: "res = Inr rs"
    by (cases res) (auto simp: tick_def Let_def case_prod_beta)
  from t sa res have ws1: "ws1 = ws'"
    by (auto simp: tick_def Let_def case_prod_beta split: sum.splits)
  have tr: "tick_results G P ws v = rs"
    by (simp add: tick_results_def sa res)
  let ?rew = "map (\<lambda>result. fst (snd result)) rs"
  let ?raw = "map (\<lambda>result. fst (snd (snd result))) rs"
  from t sa res obtain obs' where so: "stack_obs (map fst rs) = Inr obs'"
    by (auto simp: tick_def Let_def case_prod_beta split: sum.splits)
  from t sa res so obtain done' :: "int list" where
    bd: "np_broadcast (\<lambda>d p. if d \<or> p \<noteq> 0 then 1 else 0) ?raw (dones v) = Inr done'"
    by (auto simp: tick_def Let_def case_prod_beta split: sum.splits)
  from t sa res so bd obtain rew' :: "pyfloat list" where
    br: "np_broadcast (\<lambda>r d. r * float_of_int (1 - d)) ?rew done' = Inr rew'"
    by (auto simp: tick_def Let_def case_prod_beta split: sum.splits)
  from t sa res so bd br obtain rew_sum' where
    ia: "np_iadd (rew_sum v) rew' = Inr rew_sum'"
    by (auto simp: tick_def Let_def case_prod_beta split: sum.splits)
  from t sa res so bd br ia have v': "dones v' = done'" "rew_sum v' = rew_sum'"
    by (auto simp: tick_def Let_def case_prod_beta split: sum.splits)
  have ne: "rs \<noteq> []" using stack_obs_Inr_nonempty [OF so] by auto
  note st = step_all_Inr [OF sa [unfolded res]]
  have le: "length rs \<le> length ws" and lw: "length ws1 = length ws" using st by simp_all
  have raw_ne: "?raw \<noteq> []" and rew_ne: "?rew \<noteq> []" using ne by simp_all
  have raw_le: "length ?raw \<le> length (dones v)" using le ld by simp
  note d1 = np_broadcast_Inr [OF bd raw_ne raw_le]
  have ldone: "length done' = length ws" using d1(1) ld by simp
  have rew_le: "length ?rew \<le> length done'" using le ldone by simp
  note r1 = np_broadcast_Inr [OF br rew_ne rew_le]
  have lrew: "length rew' = length ws" using r1(1) ldone by simp
  have sum': "rew_sum' = map2 (+) (rew_sum v) rew'"
    using ia np_iadd_same [of rew' "rew_sum v"] lrew lr by simp
  show "step_all G ws ?acts = (Inr (tick_results G P ws v), ws')"
    using sa res ws1 tr by simp
  show "tick_results G P ws v \<noteq> []" using ne tr by simp
  show "length ws' = length ws" using lw ws1 by simp
  show "length (dones v') = length ws" using ldone v' by simp
  show "length (rew_sum v') = length ws" using sum' lrew lr v' by simp
  {
    assume i: "i < length ws"
    have j: "(if length rs = length ws then i else 0) < length rs"
      using i ne by auto
    have a: "done' ! i = (if ?raw ! (if length rs = length ws then i else 0) \<or> dones v ! i \<noteq> 0 then 1 else 0)"
      using d1(2) [of i] i ld by simp
    have b: "rew' ! i = ?rew ! (if length rs = length ws then i else 0) * float_of_int (1 - done' ! i)"
      using r1(2) [of i] i ldone by simp
    have c: "rew_sum' ! i = rew_sum v ! i + rew' ! i"
      using sum' i lr lrew by simp
    show "dones v' ! i =
             (if fst (snd (snd (slot_result (tick_results G P ws v) (length ws) i))) \<or> dones v ! i \<noteq> 0
              then 1 else 0)"
      using a j unfolding v' tr slot_result_def by (simp only: nth_map)
    show "rew_sum v' ! i =
             rew_sum v ! i +
             fst (snd (slot_result (tick_results G P ws v) (length ws) i)) * float_of_int (1 - dones v' ! i)"
      using b c j unfolding v' tr slot_result_def by (simp only: nth_map)
  }
qed




lemma np_broadcast_same:
  "length xs = length ys \<Longrightarrow> np_broadcast f xs ys = Inr (map2 f xs ys)"
  by (simp add: np_broadcast_def)

lemma tick_total:
  assumes sa: "step_all G ws (fst (policy_fn P (obs v) (rng v))) = (Inr rs, ws')"
    and la: "length (fst (policy_fn P (obs v) (rng v))) = length ws"
    and so: "stack_obs (map fst rs) = Inr obs'"
    and ld: "length (dones v) = length ws" and lr: "length (rew_sum v) = length ws"
  shows "\<exists>v'. tick G P ws v = (Inr v', ws')"
proof -
  note st = step_all_Inr [OF sa]
  have len: "length rs = length ws" using st la by simp
  let ?raw = "map (\<lambda>result. fst (snd (snd result))) rs"
  let ?rew = "map (\<lambda>result. fst (snd result)) rs"
  let ?f = "\<lambda>d p. if d \<or> p \<noteq> (0::int) then 1 else (0::int)"
  let ?g = "\<lambda>(r::pyfloat) d. r * float_of_int (1 - d)"
  have b1: "np_broadcast ?f ?raw (dones v) = Inr (map2 ?f ?raw (dones v))"
    by (rule np_broadcast_same) (simp add: len ld)
  have b2: "np_broadcast ?g ?rew (map2 ?f ?raw (dones v)) = Inr (map2 ?g ?rew (map2 ?f ?raw (dones v)))"
    by (rule np_broadcast_same) (simp add: len ld)
  have b3: "np_iadd (rew_sum v) (map2 ?g ?rew (map2 ?f ?raw (dones v))) =
              Inr (map2 (+) (rew_sum v) (map2 ?g ?rew (map2 ?f ?raw (dones v))))"
    by (rule np_iadd_same) (simp add: len ld lr)
  show ?thesis
    by (simp add: tick_def Let_def case_prod_beta sa so b1 b2 b3)
qed

lemma toy_step0: "step toy_gym toy_window0 4 =
     (Inr ([(''observations'', NDArray [1, 2] [3, 4]),
           (''actions'', NDArray [1] [0]),
           (''rewards'', NDArray [1] [0])], 5, True, ()),
      \<lparr>env = (0, 1), num_stack_frames = 1, jpeg_obs = False,
       obs_stack = \<lparr>maxlen = 1, items = [NDArray [2] [3, 4]]\<rparr>,
       act_stack = \<lparr>maxlen = 1, items = [0]\<rparr>,
       rew_stack = \<lparr>maxlen = 1, items = [0]\<rparr>,
       done_stack = \<lparr>maxlen = 1, items = [0]\<rparr>,
       info_stack = \<lparr>maxlen = 1, items = [Some ()]\<rparr>\<rparr>)"
  by (simp add: toy_defs toy_window1_def toy_window0_def)

lemma toy_step1_snd: "snd (step toy_gym toy_window1 4) = toy_window1_stepped"
  by (simp add: toy_step1 toy_window1_stepped_def)

lemma toy_step1_fst:
  "fst (step toy_gym toy_window1 4) =
     Inr ([(''observations'', NDArray [1, 2] [3, 4]),
           (''actions'', NDArray [1] [0]),
           (''rewards'', NDArray [1] [0])], 5, False, ())"
  by (simp add: toy_step1)

lemma toy_step0_fst:
  "fst (step toy_gym toy_window0 4) =
     Inr ([(''observations'', NDArray [1, 2] [3, 4]),
           (''actions'', NDArray [1] [0]),
           (''rewards'', NDArray [1] [0])], 5, True, ())"
  by (simp add: toy_step0)


lemma toy_tick:
  "tick toy_gym toy_policy [toy_window1, toy_window0] toy_vars =
    (Inr toy_vars_done, [snd (step toy_gym toy_window1 4), snd (step toy_gym toy_window0 4)])"
  by (simp add: tick_def toy_policy_def toy_vars_def toy_step1 toy_step0 stack_obs_def np_stack_def
      np_broadcast_def np_iadd_def toy_vars_done_def pyfloat_simps)

lemma toy_tick_first:
  "tick toy_gym toy_policy [toy_window1, toy_window1] toy_vars =
    (Inr toy_vars1, [toy_window1_stepped, toy_window1_stepped])"
  by (simp add: tick_def toy_policy_def toy_vars_def toy_step1 stack_obs_def np_stack_def
      np_broadcast_def np_iadd_def toy_window1_stepped_def toy_vars1_def pyfloat_simps)




lemma toy_step_all_first:
  "step_all toy_gym [toy_window1, toy_window1] [4, 4] =
     (Inr [toy_result False, toy_result False], [toy_window1_stepped, toy_window1_stepped])"
  by (simp add: toy_step1 toy_result_def toy_window1_stepped_def)

lemma toy_step_all_done:
  "step_all toy_gym [toy_window1, toy_window0] [4, 4] =
     (Inr [toy_result False, toy_result True],
      [snd (step toy_gym toy_window1 4), snd (step toy_gym toy_window0 4)])"
  by (simp add: toy_step1 toy_step0 toy_result_def)

lemma toy_stack_obs:
  "stack_obs (map fst [toy_result d, toy_result e]) =
     Inr [(''observations'', NDArray [2, 1, 2] [3, 4, 3, 4]),
          (''actions'', NDArray [2, 1] [0, 0]),
          (''rewards'', NDArray [2, 1] [0, 0])]"
  by (simp add: toy_result_def stack_obs_def np_stack_def)

lemma toy_policy_acts: "fst (policy_fn toy_policy h r) = [4, 4]"
  by (simp add: toy_policy_def)


lemma toy_inf_step0:
  "fst (step toy_inf_gym toy_window0 4) =
     Inr ([(''observations'', NDArray [1, 2] [3, 4]),
           (''actions'', NDArray [1] [0]),
           (''rewards'', NDArray [1] [0])], PosInf, True, ())"
  by (simp add: toy_inf_gym_def step_def deque_append_def deque_set_last_def get_obs_def
      np_stack_def scalar_def Let_def toy_window1_def toy_window0_def pyfloat_simps)


lemma toy_inf_tick_fresh:
  "fst (tick toy_inf_gym toy_policy_one [toy_window0] toy_vars_fresh) =
     Inr \<lparr>rng = 1,
          obs = [(''observations'', NDArray [1, 1, 2] [3, 4]),
                 (''actions'', NDArray [1, 1] [0]),
                 (''rewards'', NDArray [1, 1] [0])],
          rew_sum = [NaN], dones = [1]\<rparr>"
proof -
  obtain r w where s: "step toy_inf_gym toy_window0 4 = (r, w)"
    by (cases "step toy_inf_gym toy_window0 4")
  with toy_inf_step0 have r: "r = Inr ([(''observations'', NDArray [1, 2] [3, 4]),
           (''actions'', NDArray [1] [0]),
           (''rewards'', NDArray [1] [0])], PosInf, True, ())" by simp
  show ?thesis
    by (simp add: tick_def toy_policy_one_def toy_vars_fresh_def s r stack_obs_def np_stack_def
        np_broadcast_def np_iadd_def pyfloat_simps)
qed

text \<open>
  A whole rollout of two episodes on two small environments: the first is credited the
  reward 5 of its first step and not the 6 of the step that ends it, the second ends at its
  first step and is credited nothing.
\<close>

lemma toy_rollout:
  "fst (batch_rollout toy_gym toy_policy int [toy_wrapper 2 1, toy_wrapper 0 1] 2) = Inr [5, 0]"
  by (simp add: batch_rollout_def rollout_round_def tick_def toy_policy_def stack_obs_def
      np_broadcast_def np_iadd_def toy_defs numeral_3_eq_3 upt_rec)

section \<open>The claims\<close>




text \<open>
  Claim C2 (reward mask), amended in its last part to finite rewards. In a tick in which
  the policy returns one action per environment, every step returns and the observations
  stack, the tick returns too. Let \<open>r\<close> and \<open>d\<close> be the reward and the done flag that the
  step of slot \<open>i\<close> returns: the new flag of the slot is the disjunction of \<open>d\<close> and the old
  flag, the slot is credited \<open>r * (1 - new flag)\<close>, and a finite reward reported in the tick
  in which \<open>d\<close> is true is not credited.
\<close>

theorem tick_masks_reward:
  assumes "step_all G envs (fst (policy_fn P (obs v) (rng v))) = (Inr rs, envs')"
    and "length (fst (policy_fn P (obs v) (rng v))) = length envs"
    and "stack_obs (map fst rs) = Inr obs'"
    and "length (dones v) = length envs" and "length (rew_sum v) = length envs"
    and "i < length envs"
  shows "\<exists>v'. tick G P envs v = (Inr v', envs') \<and>
           fst (step G (envs ! i) (fst (policy_fn P (obs v) (rng v)) ! i)) = Inr (rs ! i) \<and>
           dones v' ! i = (if fst (snd (snd (rs ! i))) \<or> dones v ! i \<noteq> 0 then 1 else 0) \<and>
           rew_sum v' ! i = rew_sum v ! i + fst (snd (rs ! i)) * float_of_int (1 - dones v' ! i) \<and>
           (fst (snd (snd (rs ! i))) \<and> is_finite (fst (snd (rs ! i))) \<longrightarrow>
              rew_sum v' ! i = rew_sum v ! i)"
proof -
  from tick_total [OF assms(1,2,3,4,5)] obtain v' where t: "tick G P envs v = (Inr v', envs')" ..
  note ti = tick_Inr [OF t assms(4,5)]
  have tr: "tick_results G P envs v = rs"
    by (simp add: tick_results_def assms(1))
  note st = step_all_Inr [OF assms(1)]
  have len: "length rs = length envs" using st assms(2) by simp
  have s: "fst (step G (envs ! i) (fst (policy_fn P (obs v) (rng v)) ! i)) = Inr (rs ! i)"
    using st len assms(6) by simp
  have sr: "slot_result rs (length envs) i = rs ! i"
    using len by (simp add: slot_result_def)
  have a: "dones v' ! i = (if fst (snd (snd (rs ! i))) \<or> dones v ! i \<noteq> 0 then 1 else 0)"
    using ti(6) [OF assms(6)] by (simp only: tr sr)
  have b: "rew_sum v' ! i = rew_sum v ! i + fst (snd (rs ! i)) * float_of_int (1 - dones v' ! i)"
    using ti(7) [OF assms(6)] by (simp only: tr sr)
  have c: "fst (snd (snd (rs ! i))) \<and> is_finite (fst (snd (rs ! i))) \<longrightarrow>
              rew_sum v' ! i = rew_sum v ! i"
  proof
    assume h: "fst (snd (snd (rs ! i))) \<and> is_finite (fst (snd (rs ! i)))"
    then have "dones v' ! i = 1" using a by simp
    then have "rew_sum v' ! i = rew_sum v ! i + fst (snd (rs ! i)) * float_of_int 0"
      using b by simp
    also have "\<dots> = rew_sum v ! i + float_of_int 0"
      using h by (simp only: fmul_zero)
    also have "\<dots> = rew_sum v ! i" by (rule fadd_zero)
    finally show "rew_sum v' ! i = rew_sum v ! i" .
  qed
  from t s a b c show ?thesis by blast
qed

theorem tick_masks_reward_witness:
  "step_all toy_gym [toy_window1, toy_window1] [4, 4] =
     (Inr [toy_result False, toy_result False], [toy_window1_stepped, toy_window1_stepped]) \<and>
   tick toy_gym toy_policy [toy_window1, toy_window1] toy_vars =
     (Inr toy_vars1, [toy_window1_stepped, toy_window1_stepped]) \<and>
   rew_sum toy_vars = [7, 0] \<and> dones toy_vars = [1, 0] \<and>
   rew_sum toy_vars1 = [7, 5] \<and> dones toy_vars1 = [1, 0] \<and>
   rew_sum toy_vars1 ! 1 = rew_sum toy_vars ! 1 + 5 * float_of_int (1 - dones toy_vars1 ! 1) \<and>
   step_all toy_gym [toy_window1, toy_window0] [4, 4] =
     (Inr [toy_result False, toy_result True],
      [snd (step toy_gym toy_window1 4), snd (step toy_gym toy_window0 4)]) \<and>
   tick toy_gym toy_policy [toy_window1, toy_window0] toy_vars =
     (Inr toy_vars_done, [snd (step toy_gym toy_window1 4), snd (step toy_gym toy_window0 4)]) \<and>
   fst (snd (snd (toy_result True))) \<and> is_finite (fst (snd (toy_result True))) \<and>
   dones toy_vars_done = [1, 1] \<and>
   rew_sum toy_vars_done ! 1 = rew_sum toy_vars ! 1"
proof -
  have v: "dones toy_vars = [1, 0]" "rew_sum toy_vars = [7, 0]"
    "dones toy_vars1 = [1, 0]" "rew_sum toy_vars1 = [7, 5]"
    "dones toy_vars_done = [1, 1]" "rew_sum toy_vars_done = [7, 0]"
    by (simp_all add: toy_vars_def toy_vars1_def toy_vars_done_def)
  have r: "fst (snd (snd (toy_result True)))" "is_finite (fst (snd (toy_result True)))"
    "fst (snd (toy_result False)) = 5" "\<not> fst (snd (snd (toy_result False)))"
    by (simp_all add: toy_result_def pyfloat_simps)
  have sa1: "step_all toy_gym [toy_window1, toy_window1]
               (fst (policy_fn toy_policy (obs toy_vars) (rng toy_vars))) =
             (Inr [toy_result False, toy_result False], [toy_window1_stepped, toy_window1_stepped])"
    by (simp only: toy_policy_acts toy_step_all_first)
  have sa2: "step_all toy_gym [toy_window1, toy_window0]
               (fst (policy_fn toy_policy (obs toy_vars) (rng toy_vars))) =
             (Inr [toy_result False, toy_result True],
              [snd (step toy_gym toy_window1 4), snd (step toy_gym toy_window0 4)])"
    by (simp only: toy_policy_acts toy_step_all_done)
  have "\<exists>v'. tick toy_gym toy_policy [toy_window1, toy_window1] toy_vars =
                 (Inr v', [toy_window1_stepped, toy_window1_stepped]) \<and>
           fst (step toy_gym ([toy_window1, toy_window1] ! 1)
                 (fst (policy_fn toy_policy (obs toy_vars) (rng toy_vars)) ! 1)) =
             Inr ([toy_result False, toy_result False] ! 1) \<and>
           dones v' ! 1 =
             (if fst (snd (snd ([toy_result False, toy_result False] ! 1))) \<or> dones toy_vars ! 1 \<noteq> 0
              then 1 else 0) \<and>
           rew_sum v' ! 1 =
             rew_sum toy_vars ! 1 +
             fst (snd ([toy_result False, toy_result False] ! 1)) * float_of_int (1 - dones v' ! 1) \<and>
           (fst (snd (snd ([toy_result False, toy_result False] ! 1))) \<and>
            is_finite (fst (snd ([toy_result False, toy_result False] ! 1))) \<longrightarrow>
              rew_sum v' ! 1 = rew_sum toy_vars ! 1)"
    by (rule tick_masks_reward [OF sa1 _ toy_stack_obs]) (simp_all add: v toy_policy_acts)
  then have a: "rew_sum toy_vars1 ! 1 =
                  rew_sum toy_vars ! 1 + 5 * float_of_int (1 - dones toy_vars1 ! 1)"
    by (auto simp: toy_tick_first r)
  have "\<exists>v'. tick toy_gym toy_policy [toy_window1, toy_window0] toy_vars =
                 (Inr v', [snd (step toy_gym toy_window1 4), snd (step toy_gym toy_window0 4)]) \<and>
           fst (step toy_gym ([toy_window1, toy_window0] ! 1)
                 (fst (policy_fn toy_policy (obs toy_vars) (rng toy_vars)) ! 1)) =
             Inr ([toy_result False, toy_result True] ! 1) \<and>
           dones v' ! 1 =
             (if fst (snd (snd ([toy_result False, toy_result True] ! 1))) \<or> dones toy_vars ! 1 \<noteq> 0
              then 1 else 0) \<and>
           rew_sum v' ! 1 =
             rew_sum toy_vars ! 1 +
             fst (snd ([toy_result False, toy_result True] ! 1)) * float_of_int (1 - dones v' ! 1) \<and>
           (fst (snd (snd ([toy_result False, toy_result True] ! 1))) \<and>
            is_finite (fst (snd ([toy_result False, toy_result True] ! 1))) \<longrightarrow>
              rew_sum v' ! 1 = rew_sum toy_vars ! 1)"
    by (rule tick_masks_reward [OF sa2 _ toy_stack_obs]) (simp_all add: v toy_policy_acts)
  then have b: "rew_sum toy_vars_done ! 1 = rew_sum toy_vars ! 1"
    by (auto simp: toy_tick r)
  from a b v r toy_step_all_first toy_step_all_done toy_tick_first toy_tick show ?thesis
    by (intro conjI)
qed

text \<open>
  The same environment ends its episode at the first step, reporting \<open>inf\<close> with
  \<open>done = True\<close>: the tick credits \<open>inf * (1 - 1) = nan\<close> and not zero.
\<close>

theorem tick_masks_reward_counterexample:
  "dones toy_vars_fresh ! 0 = 0 \<and> rew_sum toy_vars_fresh ! 0 = 0 \<and>
   fst (step toy_inf_gym toy_window0 4) =
     Inr ([(''observations'', NDArray [1, 2] [3, 4]),
           (''actions'', NDArray [1] [0]),
           (''rewards'', NDArray [1] [0])], PosInf, True, ()) \<and>
   fst (tick toy_inf_gym toy_policy_one [toy_window0] toy_vars_fresh) =
     Inr \<lparr>rng = 1,
          obs = [(''observations'', NDArray [1, 1, 2] [3, 4]),
                 (''actions'', NDArray [1, 1] [0]),
                 (''rewards'', NDArray [1, 1] [0])],
          rew_sum = [NaN], dones = [1]\<rparr> \<and>
   (NaN :: pyfloat) \<noteq> 0 \<and> PosInf * float_of_int (1 - 1) = NaN"
  using toy_inf_step0 toy_inf_tick_fresh
  by (simp add: toy_vars_fresh_def pyfloat_simps)

text \<open>
  Claim C3 (pad, then fill). For a wrapper built with \<open>num_stack_frames = n \<ge> 1\<close>, in
  whatever state its earlier calls left it, \<open>reset\<close> leaves four sequences of length exactly
  \<open>n\<close>: \<open>n - 1\<close> terminal flags 1 and then a 0, \<open>n - 1\<close> zero arrays of the shape of the
  reset observation and then that observation, and actions and rewards all 0.
\<close>

theorem reset_pads_then_fills:
  assumes "init e n jpeg = Inr w0" and "1 \<le> n" and "w = run_ops G w0 ops"
  shows "items (obs_stack (snd (reset G w seed))) =
           replicate (nat n - 1) (zeros_like (reset_obs G w seed)) @ [reset_obs G w seed] \<and>
         items (act_stack (snd (reset G w seed))) = replicate (nat n) 0 \<and>
         items (rew_stack (snd (reset G w seed))) = replicate (nat n) 0 \<and>
         items (done_stack (snd (reset G w seed))) = replicate (nat n - 1) 1 @ [0] \<and>
         length (items (obs_stack (snd (reset G w seed)))) = nat n \<and>
         length (items (act_stack (snd (reset G w seed)))) = nat n \<and>
         length (items (rew_stack (snd (reset G w seed)))) = nat n \<and>
         length (items (done_stack (snd (reset G w seed)))) = nat n \<and>
         shape (zeros_like (reset_obs G w seed)) = shape (reset_obs G w seed) \<and>
         data (zeros_like (reset_obs G w seed)) =
           replicate (length (data (reset_obs G w seed))) 0"
proof -
  have wf0: "wf_wrapper w0" and n0: "num_stack_frames w0 = n"
    using init_wf [OF assms(1)] by simp_all
  have wf: "wf_wrapper w" and n: "num_stack_frames w = n"
    using run_ops_wf [OF wf0, of G ops] n0 assms(3) by simp_all
  have ge: "1 \<le> num_stack_frames w" using n assms(2) by simp
  have k: "nat (num_stack_frames w - 1) = nat n - 1" using n by simp
  have r: "replicate (nat n - 1) (0::'z) @ [0] = replicate (nat n) 0" for z :: "'z::zero"
    using assms(2) by (metis Suc_diff_1 replicate_Suc replicate_append_same zero_less_nat_eq
        zero_less_one_class.zero_less_one order_less_le_trans)
  show ?thesis
    using reset_items [OF wf ge, of G seed] assms(2)
    by (simp add: k zeros_like_def map_replicate_const nat_diff_distrib)
       (simp add: replicate_append_same r [symmetric])
qed

text \<open>
  Three frames, a wrapper that was padded by hand before the reset.
\<close>

theorem reset_pads_then_fills_witness:
  "init (2, 0) 3 False = Inr (toy_wrapper 2 3) \<and> (1::int) \<le> 3 \<and>
   items (obs_stack (snd (reset toy_gym (run_ops toy_gym (toy_wrapper 2 3) [Pad (NDArray [2] [9, 9]) 1]) None))) =
     [NDArray [2] [0, 0], NDArray [2] [0, 0], NDArray [2] [1, 2]] \<and>
   items (act_stack (snd (reset toy_gym (run_ops toy_gym (toy_wrapper 2 3) [Pad (NDArray [2] [9, 9]) 1]) None))) = [0, 0, 0] \<and>
   items (rew_stack (snd (reset toy_gym (run_ops toy_gym (toy_wrapper 2 3) [Pad (NDArray [2] [9, 9]) 1]) None))) = [0, 0, 0] \<and>
   items (done_stack (snd (reset toy_gym (run_ops toy_gym (toy_wrapper 2 3) [Pad (NDArray [2] [9, 9]) 1]) None))) = [1, 1, 0]"
proof -
  have i: "init (2::nat, 0::nat) 3 False = Inr (toy_wrapper 2 3)"
    by (simp add: init_def toy_wrapper_def)
  have o: "reset_obs toy_gym (run_ops toy_gym (toy_wrapper 2 3) [Pad (NDArray [2] [9, 9]) 1]) None
             = NDArray [2] [1, 2]"
    by (simp add: reset_obs_def toy_gym_def run_ops_def pad_current_episode_def pad_once_def
        toy_wrapper_def case_prod_beta)
  show ?thesis
    using reset_pads_then_fills [OF i, of "run_ops toy_gym (toy_wrapper 2 3) [Pad (NDArray [2] [9, 9]) 1]" toy_gym "[Pad (NDArray [2] [9, 9]) 1]" None] i o
    by (simp add: zeros_like_def numeral_3_eq_3)
qed

text \<open>
  Claim C4 (causal shift), amended to \<open>num_stack_frames \<ge> 2\<close>. After a reset and any
  further calls, \<open>step a\<close> leaves \<open>a\<close> at position \<open>n - 2\<close> of the action sequence and the
  reward of the environment's step at position \<open>n - 2\<close> of the reward sequence; that reward
  is the one \<open>step\<close> returns, and \<open>step\<close> can only fail with the ValueError of \<open>np.stack\<close>.
\<close>

theorem step_causal_shift:
  assumes "init e n jpeg = Inr w0" and "2 \<le> n" and "w = run_ops G w0 (Reset seed # ops)"
  shows "py_index (items (act_stack (snd (step G w a)))) (n - 2) = Inr a \<and>
         py_index (items (rew_stack (snd (step G w a)))) (n - 2) =
           Inr (fst (snd (fst (env_step G (env w) a)))) \<and>
         (case fst (step G w a) of
            Inl err \<Rightarrow> err = ValueError
          | Inr (h, r, d, i) \<Rightarrow> r = fst (snd (fst (env_step G (env w) a))))"
proof -
  have n1: "1 \<le> n" using assms(2) by simp
  have full: "full_window w" and nw: "num_stack_frames w = n"
    using after_reset_full [OF assms(1) n1, of G seed ops] assms(3) by simp_all
  have la: "length (items (act_stack w)) = nat n" and lr: "length (items (rew_stack w)) = nat n"
    and ma: "maxlen (act_stack w) = nat n" and mr: "maxlen (rew_stack w) = nat n"
    using full nw by (simp_all add: full_window_def)
  have nea: "items (act_stack w) \<noteq> []" and ner: "items (rew_stack w) \<noteq> []"
    using la lr assms(2) by auto
  have shift: "py_index (items (deque_append (d\<lparr>items := (items d)[length (items d) - 1 := x]\<rparr>) z)) (n - 2) = Inr x"
    if "length (items d) = nat n" "maxlen d = nat n" for d :: "'z deque" and x z
  proof -
    let ?xs = "(items d)[length (items d) - 1 := x]"
    have len: "length ?xs = nat n" using that by simp
    have "items (deque_append (d\<lparr>items := ?xs\<rparr>) z) = tl (?xs @ [z])"
      using that by (simp add: deque_append_def Let_def)
    moreover have "length (tl (?xs @ [z])) = nat n" using len by simp
    moreover have "tl (?xs @ [z]) ! nat (n - 2) = (?xs @ [z]) ! Suc (nat (n - 2))"
      using len assms(2) by (simp add: nth_tl)
    moreover have "Suc (nat (n - 2)) = length (items d) - 1"
      using that assms(2) by simp
    moreover have "(?xs @ [z]) ! (length (items d) - 1) = x"
      using that assms(2) by (simp add: nth_append)
    ultimately show ?thesis using assms(2) by (simp add: py_index_def)
  qed
  have r: "fst (snd (step_env G w a)) = fst (snd (fst (env_step G (env w) a)))"
    by (simp add: step_env_def)
  have c: "(case fst (step G w a) of
              Inl err \<Rightarrow> err = ValueError
            | Inr (h, r, d, i) \<Rightarrow> r = fst (snd (fst (env_step G (env w) a))))"
    using get_obs_error [of "snd (step G w a)"]
    by (auto simp: fst_step [OF nea ner] r [symmetric] split: sum.splits prod.splits)
  show ?thesis
    using shift [OF la ma] shift [OF lr mr] c
    by (simp add: step_fields [OF nea ner] r)
qed

theorem step_causal_shift_witness:
  "init (2::nat, 0::nat) 2 False = Inr (toy_wrapper 2 2) \<and> (2::int) \<le> 2 \<and>
   py_index (items (act_stack (snd (step toy_gym (run_ops toy_gym (toy_wrapper 2 2) [Reset None]) 4)))) (2 - 2) = Inr 4 \<and>
   py_index (items (rew_stack (snd (step toy_gym (run_ops toy_gym (toy_wrapper 2 2) [Reset None]) 4)))) (2 - 2) = Inr 5 \<and>
   fst (snd (fst (env_step toy_gym (env (run_ops toy_gym (toy_wrapper 2 2) [Reset None])) 4))) = 5"
proof -
  have i: "init (2::nat, 0::nat) 2 False = Inr (toy_wrapper 2 2)"
    by (simp add: toy_init)
  have r: "run_ops toy_gym (toy_wrapper 2 2) [Reset None] = snd (reset toy_gym (toy_wrapper 2 2) None)"
    by (simp add: run_ops_def)
  have e: "fst (snd (fst (env_step toy_gym (env (run_ops toy_gym (toy_wrapper 2 2) [Reset None])) 4))) = 5"
    by (simp add: r toy_reset2) (simp add: toy_gym_def toy_window2_def pyfloat_simps)
  show ?thesis
    using step_causal_shift [OF i, of "run_ops toy_gym (toy_wrapper 2 2) [Reset None]" toy_gym None "[]" 4] i e
    by simp
qed

text \<open>
  With one frame (the default of \<open>num_stack_frames\<close>) the only entry is the placeholder of
  the current frame: after \<open>step 4\<close>, which returns the reward 5, the action and reward
  sequences are \<open>[0]\<close>, and Python's index \<open>1 - 2 = -1\<close> reads that 0.
\<close>

theorem step_causal_shift_capacity_one_counterexample:
  "init (2::nat, 0::nat) 1 False = Inr (toy_wrapper 2 1) \<and>
   fst (step toy_gym (run_ops toy_gym (toy_wrapper 2 1) [Reset None]) 4) =
     Inr ([(''observations'', NDArray [1, 2] [3, 4]),
           (''actions'', NDArray [1] [0]), (''rewards'', NDArray [1] [0])], 5, False, ()) \<and>
   items (act_stack (snd (step toy_gym (run_ops toy_gym (toy_wrapper 2 1) [Reset None]) 4))) = [0] \<and>
   items (rew_stack (snd (step toy_gym (run_ops toy_gym (toy_wrapper 2 1) [Reset None]) 4))) = [0] \<and>
   py_index (items (act_stack (snd (step toy_gym (run_ops toy_gym (toy_wrapper 2 1) [Reset None]) 4)))) (1 - 2)
     \<noteq> Inr 4 \<and>
   py_index (items (rew_stack (snd (step toy_gym (run_ops toy_gym (toy_wrapper 2 1) [Reset None]) 4)))) (1 - 2)
     \<noteq> Inr 5"
  by (simp add: run_ops_def toy_init toy_reset1 toy_step1 py_index_def pyfloat_simps)

text \<open>
  Claim C5 (a step pushes a terminal flag). The code does not do this: \<open>step\<close>
  appends to the observation, action, reward and info deques and never to \<open>done_stack\<close>. With
  two frames, after a reset and one step the observations have moved on by one timestep while
  the terminal flags are still those of the reset, \<open>[1, 0]\<close>, the 1 now standing beside the
  reset observation.
\<close>

theorem step_leaves_done_stack:
  "items (done_stack (snd (reset toy_gym (toy_wrapper 2 2) None))) = [1, 0] \<and>
   items (obs_stack (snd (reset toy_gym (toy_wrapper 2 2) None))) =
     [NDArray [2] [0, 0], NDArray [2] [1, 2]] \<and>
   fst (step toy_gym (snd (reset toy_gym (toy_wrapper 2 2) None)) 4) =
     Inr ([(''observations'', NDArray [2, 2] [1, 2, 3, 4]),
           (''actions'', NDArray [2] [4, 0]), (''rewards'', NDArray [2] [5, 0])], 5, False, ()) \<and>
   items (obs_stack (snd (step toy_gym (snd (reset toy_gym (toy_wrapper 2 2) None)) 4))) =
     [NDArray [2] [1, 2], NDArray [2] [3, 4]] \<and>
   items (done_stack (snd (step toy_gym (snd (reset toy_gym (toy_wrapper 2 2) None)) 4))) = [1, 0] \<and>
   items (done_stack (snd (step toy_gym (snd (reset toy_gym (toy_wrapper 2 2) None)) 4))) \<noteq> [0, 0]"
  by (simp add: toy_reset2 toy_step2) (simp add: toy_window2_def)

text \<open>
  Claim C6 (the history dict), amended to the three sequences that \<open>_get_obs\<close>
  returns. After a reset and any further calls the dict has the keys observations, actions
  and rewards, in this order, each array stacking the \<open>n\<close> entries of its deque oldest
  first (or \<open>np.stack\<close> raises ValueError because the observations differ in shape), and the
  call leaves the wrapper as it was. The terminal flags are not part of the dict.
\<close>

theorem get_obs_returns_three_sequences:
  assumes "init e n jpeg = Inr w0" and "1 \<le> n" and "w = run_ops G w0 (Reset seed # ops)"
  shows "get_obs w =
           (if list_all (\<lambda>b. shape b = shape (hd (items (obs_stack w)))) (tl (items (obs_stack w)))
            then Inr [(''observations'',
                       NDArray (nat n # shape (hd (items (obs_stack w))))
                         (concat (map data (items (obs_stack w))))),
                      (''actions'', NDArray [nat n] (map float_of_int (items (act_stack w)))),
                      (''rewards'', NDArray [nat n] (items (rew_stack w)))]
            else Inl ValueError) \<and>
         length (items (obs_stack w)) = nat n \<and>
         length (items (act_stack w)) = nat n \<and>
         length (items (rew_stack w)) = nat n \<and>
         apply_op G w GetObs = w"
proof -
  have full: "full_window w" and nw: "num_stack_frames w = n"
    using after_reset_full [OF assms(1,2), of G seed ops] assms(3) by simp_all
  have lo: "length (items (obs_stack w)) = nat n" and la: "length (items (act_stack w)) = nat n"
    and lr: "length (items (rew_stack w)) = nat n"
    using full nw by (simp_all add: full_window_def)
  have ne: "items (obs_stack w) \<noteq> []" "items (act_stack w) \<noteq> []" "items (rew_stack w) \<noteq> []"
    using lo la lr assms(2) by auto
  show ?thesis
    using get_obs_eq [OF ne] lo la lr by simp
qed

theorem get_obs_returns_three_sequences_witness:
  "init (2::nat, 0::nat) 2 False = Inr (toy_wrapper 2 2) \<and> (1::int) \<le> 2 \<and>
   get_obs (run_ops toy_gym (toy_wrapper 2 2) [Reset None, Step 4]) =
     Inr [(''observations'', NDArray [2, 2] [1, 2, 3, 4]),
          (''actions'', NDArray [2] [4, 0]),
          (''rewards'', NDArray [2] [5, 0])]"
proof -
  have i: "init (2::nat, 0::nat) 2 False = Inr (toy_wrapper 2 2)"
    by (simp add: toy_init)
  have r: "run_ops toy_gym (toy_wrapper 2 2) [Reset None, Step 4] =
             snd (step toy_gym toy_window2 4)"
    by (simp add: run_ops_def toy_reset2)
  show ?thesis
    using get_obs_returns_three_sequences [OF i, of "run_ops toy_gym (toy_wrapper 2 2) [Reset None, Step 4]"
        toy_gym None "[Step 4]"] i
    by (simp add: r toy_step2 pyfloat_simps)
qed

text \<open>
  With two frames, right after a reset: the dict has three entries and none of them is the
  stacked terminal flags \<open>[1, 0]\<close>.
\<close>

theorem get_obs_omits_terminal_flags_counterexample:
  "get_obs (run_ops toy_gym (toy_wrapper 2 2) [Reset None]) =
     Inr [(''observations'', NDArray [2, 2] [0, 0, 1, 2]),
          (''actions'', NDArray [2] [0, 0]),
          (''rewards'', NDArray [2] [0, 0])] \<and>
   items (done_stack (run_ops toy_gym (toy_wrapper 2 2) [Reset None])) = [1, 0] \<and>
   length [(''observations'', NDArray [2, 2] [0, 0, 1, 2]),
          (''actions'', NDArray [2] [0, 0]),
          (''rewards'', NDArray [2] [0, 0::pyfloat])] \<noteq> 4 \<and>
   NDArray [2] [1, 0] \<notin> snd ` set [(''observations'', NDArray [2, 2] [0, 0, 1, 2]),
          (''actions'', NDArray [2] [0, 0]),
          (''rewards'', NDArray [2] [0, 0])]"
proof -
  have r: "run_ops toy_gym (toy_wrapper 2 2) [Reset None] = toy_window2"
    by (simp add: run_ops_def toy_reset2)
  have g: "get_obs toy_window2 =
     Inr [(''observations'', NDArray [2, 2] [0, 0, 1, 2]),
          (''actions'', NDArray [2] [0, 0]),
          (''rewards'', NDArray [2] [0, 0])]"
    using fst_reset [of toy_gym "toy_wrapper 2 2" None] by (simp add: toy_reset2)
  show ?thesis
    by (simp add: r g) (simp add: toy_window2_def pyfloat_simps)
qed

text \<open>
  Claim C7 (window shape). For \<open>num_stack_frames = n \<ge> 1\<close> and any sequence of calls
  that begins with a reset, the observation, action, reward and terminal-flag sequences
  have the same length, at most \<open>n\<close>. The sequence of calls is arbitrary, so this holds after
  every call.
\<close>

theorem window_lengths_equal:
  assumes "init e n jpeg = Inr w0" and "1 \<le> n" and "w = run_ops G w0 (Reset seed # ops)"
  shows "length (items (obs_stack w)) = length (items (act_stack w)) \<and>
         length (items (act_stack w)) = length (items (rew_stack w)) \<and>
         length (items (rew_stack w)) = length (items (done_stack w)) \<and>
         int (length (items (obs_stack w))) \<le> n"
  using after_reset_full [OF assms(1,2), of G seed ops] assms(3)
  by (simp add: full_window_def)

theorem window_lengths_equal_witness:
  "init (2::nat, 0::nat) 2 False = Inr (toy_wrapper 2 2) \<and> (1::int) \<le> 2 \<and>
   length (items (obs_stack (run_ops toy_gym (toy_wrapper 2 2) [Reset None, Step 4]))) = 2 \<and>
   length (items (act_stack (run_ops toy_gym (toy_wrapper 2 2) [Reset None, Step 4]))) = 2 \<and>
   length (items (rew_stack (run_ops toy_gym (toy_wrapper 2 2) [Reset None, Step 4]))) = 2 \<and>
   length (items (done_stack (run_ops toy_gym (toy_wrapper 2 2) [Reset None, Step 4]))) = 2"
proof -
  have i: "init (2::nat, 0::nat) 2 False = Inr (toy_wrapper 2 2)"
    by (simp add: toy_init)
  have r: "run_ops toy_gym (toy_wrapper 2 2) [Reset None, Step 4] =
             snd (step toy_gym (snd (reset toy_gym (toy_wrapper 2 2) None)) 4)"
    by (simp add: run_ops_def)
  show ?thesis
    using window_lengths_equal [OF i, of "run_ops toy_gym (toy_wrapper 2 2) [Reset None, Step 4]"
        toy_gym None "[Step 4]"] i
    by (simp add: r toy_reset2 toy_step2)
qed

text \<open>
  Claim C8 (batch divisibility). When \<open>num_episodes\<close> is not a multiple of the number
  of environments, \<open>_batch_rollout\<close> raises and returns the environments exactly as it got
  them, whatever the environments' \<open>reset\<close> and \<open>step\<close> would do: it calls neither. The
  exception is the AssertionError of the \<open>assert\<close>, and for an empty list of environments the
  IndexError of \<open>envs[0]\<close>, which comes first.
\<close>

theorem batch_rollout_rejects_indivisible:
  assumes "num_episodes mod int (length envs) \<noteq> 0"
  shows "batch_rollout G P draws envs num_episodes =
           (Inl (if envs = [] then IndexError else AssertionError), envs)"
  using assms by (cases envs) (simp_all add: batch_rollout_def)

theorem batch_rollout_rejects_indivisible_witness:
  "(3::int) mod int (length [toy_wrapper 2 1, toy_wrapper 0 1]) \<noteq> 0 \<and>
   batch_rollout toy_gym toy_policy int [toy_wrapper 2 1, toy_wrapper 0 1] 3 =
     (Inl AssertionError, [toy_wrapper 2 1, toy_wrapper 0 1])"
  using batch_rollout_rejects_indivisible [of 3 "[toy_wrapper 2 1, toy_wrapper 0 1]" toy_gym toy_policy int]
  by simp

text \<open>
  Claim C9 (aggregation), amended in the standard deviation. For
  \<open>[1, 2, 3, 4, 100]\<close> the mean is 22, the median 3 and the interquartile mean 3; the
  population standard deviation is \<open>sqrt 1522\<close>, between 39.01 and 39.02.
\<close>

theorem print_metrics_example:
  "print_metrics [1, 2, 3, 4, 100] = Inr [Some 22, Some (sqrt 1522), Some 3, Some 3] \<and>
   39.01 < sqrt 1522 \<and> sqrt 1522 < 39.02"
proof -
  have "print_metrics [1, 2, 3, 4, 100] = Inr [Some 22, Some (sqrt 1522), Some 3, Some 3]"
    by (simp add: print_metrics_def trim_mean_def np_mean_def np_std_def np_median_def Let_def)
  moreover have "39.01 < sqrt 1522"
    by (rule real_less_rsqrt) (simp add: power2_eq_square)
  moreover have "sqrt 1522 < 39.02"
    by (rule real_less_lsqrt) (simp_all add: power2_eq_square)
  ultimately show ?thesis by simp
qed

text \<open>
  The standard deviation is more than 0.29 away from 38.72.
\<close>

theorem print_metrics_std_counterexample:
  "np_std [1, 2, 3, 4, 100] = Some (sqrt 1522) \<and> \<not> \<bar>sqrt 1522 - 38.72\<bar> < 0.29"
proof -
  have "np_std [1, 2, 3, 4, 100] = Some (sqrt 1522)"
    by (simp add: np_mean_def np_std_def)
  moreover have "39.01 < sqrt 1522"
    by (rule real_less_rsqrt) (simp add: power2_eq_square)
  ultimately show ?thesis by simp
qed

text \<open>
  Claim C10 (placeholder last). In every history dict that \<open>reset\<close> or \<open>step\<close>
  returns, the arrays under actions and rewards are not empty and end with 0.
\<close>

theorem returned_history_ends_with_placeholder:
  "(fst (reset G w seed) = Inr h \<longrightarrow> placeholder_last h) \<and>
   (fst (step G w' a) = Inr (h', r, d, i) \<longrightarrow> placeholder_last h')"
proof (intro conjI impI)
  assume "fst (reset G w seed) = Inr h"
  then have "get_obs (snd (reset G w seed)) = Inr h" by (simp add: fst_reset)
  then show "placeholder_last h"
    by (rule placeholder_lastI) (simp_all add: reset_fields deque_extend_snoc)
next
  assume s: "fst (step G w' a) = Inr (h', r, d, i)"
  note ne = step_Inr_nonempty [OF s]
  from s have "get_obs (snd (step G w' a)) = Inr h'"
    using fst_step [of w' G a] ne by (auto split: sum.splits)
  then show "placeholder_last h'"
    by (rule placeholder_lastI) (simp_all add: step_fields ne)
qed

theorem returned_history_ends_with_placeholder_witness:
  "fst (reset toy_gym (toy_wrapper 2 2) None) =
     Inr [(''observations'', NDArray [2, 2] [0, 0, 1, 2]),
          (''actions'', NDArray [2] [0, 0]), (''rewards'', NDArray [2] [0, 0])] \<and>
   placeholder_last [(''observations'', NDArray [2, 2] [0, 0, 1, 2]),
          (''actions'', NDArray [2] [0, 0]), (''rewards'', NDArray [2] [0, 0])] \<and>
   fst (step toy_gym (snd (reset toy_gym (toy_wrapper 2 2) None)) 4) =
     Inr ([(''observations'', NDArray [2, 2] [1, 2, 3, 4]),
           (''actions'', NDArray [2] [4, 0]), (''rewards'', NDArray [2] [5, 0])], 5, False, ()) \<and>
   placeholder_last [(''observations'', NDArray [2, 2] [1, 2, 3, 4]),
           (''actions'', NDArray [2] [4, 0]), (''rewards'', NDArray [2] [5, 0])]"
  using returned_history_ends_with_placeholder
    [of toy_gym "toy_wrapper 2 2" None
        "[(''observations'', NDArray [2, 2] [0, 0, 1, 2]),
          (''actions'', NDArray [2] [0, 0]), (''rewards'', NDArray [2] [0, 0])]"
        "snd (reset toy_gym (toy_wrapper 2 2) None)" 4
        "[(''observations'', NDArray [2, 2] [1, 2, 3, 4]),
           (''actions'', NDArray [2] [4, 0]), (''rewards'', NDArray [2] [5, 0])]" 5 False "()"]
  by (simp add: toy_reset2 toy_step2)

end
